theory Spec2Isabelle
  imports Main "HOL-Library.Word" "HOL-Library.AList"
begin

unbundle bit_operations_syntax

section \<open>JavaScript values\<close>

text \<open>
  The program is JavaScript, so the data it handles are dynamically typed scalars.
  Strings are modelled by their UTF-8 bytes (\<open>string\<close>). Numbers are IEEE doubles in the
  program; the model keeps a finite number as an exact decimal \<open>m * 10 ^ e\<close> in normal
  form (\<open>m\<close> not divisible by ten, zero as \<open>Finite 0 0\<close>), next to \<open>NaN\<close> and the two
  infinities. Every number of the program comes from a decimal literal, a product with
  \<open>100\<close>, \<open>Math.round\<close> or \<open>parseInt\<close>, so the decimals are closed under what the code does;
  the model agrees with the doubles wherever the values involved are exactly representable
  (every input evaluated below is). Negative zero is identified with zero: the program
  cannot tell them apart (both are falsy, both print as \<open>0\<close>, and it never divides by a
  number).
\<close>

datatype jsnum = Finite int int | NaN | PosInfinity | NegInfinity

datatype jsval = JUndefined | JNull | JBool bool | JNum jsnum | JStr string

text \<open>Objects are property lists in insertion order; reading an absent property gives
  \<open>undefined\<close>, assigning one replaces it in place or appends it.\<close>

type_synonym obj = "(string \<times> jsval) list"

definition get_prop :: "obj \<Rightarrow> string \<Rightarrow> jsval" where
  "get_prop ob k = (case map_of ob k of None \<Rightarrow> JUndefined | Some v \<Rightarrow> v)"

definition has_prop :: "obj \<Rightarrow> string \<Rightarrow> bool" where
  "has_prop ob k = (map_of ob k \<noteq> None)"

definition set_prop :: "obj \<Rightarrow> string \<Rightarrow> jsval \<Rightarrow> obj" where
  "set_prop ob k v = AList.update k v ob"

subsection \<open>Numbers\<close>

function strip10 :: "int \<Rightarrow> int \<Rightarrow> int \<times> int" where
  "strip10 m e = (if m \<noteq> 0 \<and> m mod 10 = 0 then strip10 (m div 10) (e + 1) else (m, e))"
  by pat_completeness auto
termination
  by (relation "measure (\<lambda>(m, e). nat \<bar>m\<bar>)") auto

declare strip10.simps [simp del]

definition mk_num :: "int \<Rightarrow> int \<Rightarrow> jsnum" where
  "mk_num m e = (if m = 0 then Finite 0 0 else case strip10 m e of (m', e') \<Rightarrow> Finite m' e')"

definition num_truthy :: "jsnum \<Rightarrow> bool" where
  "num_truthy x = (case x of Finite m e \<Rightarrow> m \<noteq> 0 | NaN \<Rightarrow> False | _ \<Rightarrow> True)"

text \<open>\<open>x * y\<close> on numbers.\<close>

definition num_sign_pos :: "jsnum \<Rightarrow> bool" where
  "num_sign_pos x = (case x of Finite m e \<Rightarrow> 0 \<le> m | PosInfinity \<Rightarrow> True | _ \<Rightarrow> False)"

definition num_times :: "jsnum \<Rightarrow> jsnum \<Rightarrow> jsnum" where
  "num_times x y =
     (case (x, y) of
        (NaN, _) \<Rightarrow> NaN
      | (_, NaN) \<Rightarrow> NaN
      | (Finite m e, Finite n f) \<Rightarrow> mk_num (m * n) (e + f)
      | _ \<Rightarrow> if \<not> num_truthy x \<or> \<not> num_truthy y then NaN
             else if num_sign_pos x = num_sign_pos y then PosInfinity else NegInfinity)"

text \<open>\<open>Math.round\<close>: the nearest integer, ties towards plus infinity.\<close>

definition Math_round :: "jsnum \<Rightarrow> jsnum" where
  "Math_round x =
     (case x of
        Finite m e \<Rightarrow>
          if 0 \<le> e then Finite m e
          else mk_num ((2 * m + 10 ^ nat (- e)) div (2 * 10 ^ nat (- e))) 0
      | _ \<Rightarrow> x)"

text \<open>\<open>x <= 0\<close> on a number.\<close>

definition num_le_zero :: "jsnum \<Rightarrow> bool" where
  "num_le_zero x = (case x of Finite m e \<Rightarrow> m \<le> 0 | NegInfinity \<Rightarrow> True | _ \<Rightarrow> False)"

subsection \<open>Strings and conversions\<close>

definition digit_char :: "nat \<Rightarrow> char" where
  "digit_char d = ''0123456789abcdef'' ! d"

function show_nat :: "nat \<Rightarrow> string" where
  "show_nat n = (if n < 10 then [digit_char n] else show_nat (n div 10) @ [digit_char (n mod 10)])"
  by pat_completeness auto
termination
  by (relation "measure id") auto

declare show_nat.simps [simp del]

text \<open>\<open>Number::toString\<close> (ECMA-262, 6.1.6.1.20) on the decimal \<open>s * 10 ^ (n - k)\<close> with
  \<open>k\<close> digits.\<close>

definition show_exponent :: "int \<Rightarrow> string" where
  "show_exponent x = (if 0 \<le> x then ''+'' else ''-'') @ show_nat (nat \<bar>x\<bar>)"

definition num_toString :: "jsnum \<Rightarrow> string" where
  "num_toString x =
     (case x of
        NaN \<Rightarrow> ''NaN''
      | PosInfinity \<Rightarrow> ''Infinity''
      | NegInfinity \<Rightarrow> ''-Infinity''
      | Finite m e \<Rightarrow>
          if m = 0 then ''0''
          else
            let ds = show_nat (nat \<bar>m\<bar>);
                k = int (length ds);
                n = k + e;
                body =
                  (if k \<le> n \<and> n \<le> 21 then ds @ replicate (nat (n - k)) CHR ''0''
                   else if 0 < n \<and> n \<le> 21 then take (nat n) ds @ ''.'' @ drop (nat n) ds
                   else if - 6 < n \<and> n \<le> 0 then ''0.'' @ replicate (nat (- n)) CHR ''0'' @ ds
                   else if k = 1 then ds @ ''e'' @ show_exponent (n - 1)
                   else take 1 ds @ ''.'' @ drop 1 ds @ ''e'' @ show_exponent (n - 1))
            in (if m < 0 then ''-'' else '''') @ body)"

definition ToString :: "jsval \<Rightarrow> string" where
  "ToString v =
     (case v of
        JUndefined \<Rightarrow> ''undefined''
      | JNull \<Rightarrow> ''null''
      | JBool b \<Rightarrow> (if b then ''true'' else ''false'')
      | JNum x \<Rightarrow> num_toString x
      | JStr s \<Rightarrow> s)"

text \<open>Truthiness, as \<open>!v\<close>, \<open>v || w\<close> and \<open>if (v)\<close> read it.\<close>

definition truthy :: "jsval \<Rightarrow> bool" where
  "truthy v =
     (case v of
        JUndefined \<Rightarrow> False
      | JNull \<Rightarrow> False
      | JBool b \<Rightarrow> b
      | JNum x \<Rightarrow> num_truthy x
      | JStr s \<Rightarrow> s \<noteq> [])"

text \<open>White space, for \<open>trim\<close>, \<open>parseInt\<close> and \<open>parseFloat\<close>: the ASCII white space and line
  terminators (the non-ASCII ones are left out of the byte model).\<close>

definition is_space :: "char \<Rightarrow> bool" where
  "is_space c = (c \<in> set [CHR 0x09, CHR 0x0A, CHR 0x0B, CHR 0x0C, CHR 0x0D, CHR '' ''])"

definition trimStart :: "string \<Rightarrow> string" where
  "trimStart s = dropWhile is_space s"

definition trim :: "string \<Rightarrow> string" where
  "trim s = rev (dropWhile is_space (rev (dropWhile is_space s)))"

definition digit_val :: "char \<Rightarrow> nat option" where
  "digit_val c =
     (let n = (of_char c :: nat) in
      if 48 \<le> n \<and> n \<le> 57 then Some (n - 48)
      else if 97 \<le> n \<and> n \<le> 122 then Some (n - 87)
      else if 65 \<le> n \<and> n \<le> 90 then Some (n - 55)
      else None)"

definition is_digit :: "nat \<Rightarrow> char \<Rightarrow> bool" where
  "is_digit radix c = (case digit_val c of None \<Rightarrow> False | Some d \<Rightarrow> d < radix)"

definition digits_value :: "nat \<Rightarrow> string \<Rightarrow> nat" where
  "digits_value radix ds = foldl (\<lambda>acc c. acc * radix + (case digit_val c of None \<Rightarrow> 0 | Some d \<Rightarrow> d)) 0 ds"

text \<open>\<open>parseInt(string)\<close> with no radix argument (ECMA-262, 19.2.5).\<close>

definition parseInt_str :: "string \<Rightarrow> jsnum" where
  "parseInt_str s =
     (let s1 = trimStart s;
          neg = (s1 \<noteq> [] \<and> hd s1 = CHR ''-'');
          s2 = (if s1 \<noteq> [] \<and> (hd s1 = CHR ''-'' \<or> hd s1 = CHR ''+'') then tl s1 else s1);
          hex = (take 2 s2 = ''0x'' \<or> take 2 s2 = ''0X'');
          radix = (if hex then 16 else 10);
          s3 = (if hex then drop 2 s2 else s2);
          ds = takeWhile (is_digit radix) s3
      in if ds = [] then NaN
         else mk_num ((if neg then - 1 else 1) * int (digits_value radix ds)) 0)"

text \<open>\<open>parseFloat(string)\<close> (ECMA-262, 19.2.4): the longest prefix that is a decimal
  literal.\<close>

definition parseFloat_str :: "string \<Rightarrow> jsnum" where
  "parseFloat_str s =
     (let s1 = trimStart s;
          neg = (s1 \<noteq> [] \<and> hd s1 = CHR ''-'');
          s2 = (if s1 \<noteq> [] \<and> (hd s1 = CHR ''-'' \<or> hd s1 = CHR ''+'') then tl s1 else s1);
          sgn = (if neg then - 1 else 1 :: int)
      in if take 8 s2 = ''Infinity'' then (if neg then NegInfinity else PosInfinity)
         else
           let ip = takeWhile (is_digit 10) s2;
               r1 = dropWhile (is_digit 10) s2;
               fp = (if r1 \<noteq> [] \<and> hd r1 = CHR ''.'' then takeWhile (is_digit 10) (tl r1) else []);
               r2 = (if r1 \<noteq> [] \<and> hd r1 = CHR ''.'' then dropWhile (is_digit 10) (tl r1) else r1);
               r3 = (if r2 \<noteq> [] \<and> (hd r2 = CHR ''e'' \<or> hd r2 = CHR ''E'') then tl r2 else []);
               eneg = (r3 \<noteq> [] \<and> hd r3 = CHR ''-'');
               r4 = (if r3 \<noteq> [] \<and> (hd r3 = CHR ''-'' \<or> hd r3 = CHR ''+'') then tl r3 else r3);
               ep = takeWhile (is_digit 10) r4;
               ex = (if eneg then - 1 else 1) * int (digits_value 10 ep)
           in if ip = [] \<and> fp = [] then NaN
              else mk_num (sgn * int (digits_value 10 (ip @ fp))) (ex - int (length fp)))"

definition parseInt :: "jsval \<Rightarrow> jsnum" where
  "parseInt v = parseInt_str (ToString v)"

definition parseFloat :: "jsval \<Rightarrow> jsnum" where
  "parseFloat v = parseFloat_str (ToString v)"

text \<open>\<open>s.includes(t)\<close> and \<open>s.padStart(n, '0')\<close>.\<close>

fun starts_with :: "string \<Rightarrow> string \<Rightarrow> bool" where
  "starts_with s [] = True"
| "starts_with [] (c # t) = False"
| "starts_with (d # s) (c # t) = (d = c \<and> starts_with s t)"

fun str_includes :: "string \<Rightarrow> string \<Rightarrow> bool" where
  "str_includes [] t = (t = [])"
| "str_includes (c # s) t = (starts_with (c # s) t \<or> str_includes s t)"

definition padStart0 :: "nat \<Rightarrow> string \<Rightarrow> string" where
  "padStart0 n s = replicate (n - length s) CHR ''0'' @ s"


section \<open>The platform's hash primitives\<close>

text \<open>
  \<open>utils/hash.js\<close> calls Node's \<open>crypto.createHmac('sha256', key)\<close> and
  \<open>Buffer.from(s, 'hex')\<close>. Both belong to the platform, not to the repository; they are
  modelled from their standards: SHA-256 from FIPS 180-4, HMAC from RFC 2104, and the
  hexadecimal decoding from the Node documentation of \<open>Buffer\<close> (decoding stops, without an
  error, at the first pair of characters that is not two hexadecimal digits, and a single
  trailing character is dropped).
\<close>

type_synonym byte = "8 word"
type_synonym w32 = "32 word"

text \<open>The round constants and the initial hash value of FIPS 180-4, in decimal.\<close>

definition K256 :: "w32 list" where
  "K256 =
    [1116352408, 1899447441, 3049323471, 3921009573, 961987163, 1508970993,
     2453635748, 2870763221, 3624381080, 310598401, 607225278, 1426881987,
     1925078388, 2162078206, 2614888103, 3248222580, 3835390401, 4022224774,
     264347078, 604807628, 770255983, 1249150122, 1555081692, 1996064986,
     2554220882, 2821834349, 2952996808, 3210313671, 3336571891, 3584528711,
     113926993, 338241895, 666307205, 773529912, 1294757372, 1396182291,
     1695183700, 1986661051, 2177026350, 2456956037, 2730485921, 2820302411,
     3259730800, 3345764771, 3516065817, 3600352804, 4094571909, 275423344,
     430227734, 506948616, 659060556, 883997877, 958139571, 1322822218,
     1537002063, 1747873779, 1955562222, 2024104815, 2227730452, 2361852424,
     2428436474, 2756734187, 3204031479, 3329325298]"

definition H256 :: "w32 list" where
  "H256 =
    [1779033703, 3144134277, 1013904242, 2773480762, 1359893119, 2600822924,
     528734635, 1541459225]"

definition rotr :: "nat \<Rightarrow> w32 \<Rightarrow> w32" where
  "rotr n x = drop_bit n x OR push_bit (32 - n) x"

definition Ch :: "w32 \<Rightarrow> w32 \<Rightarrow> w32 \<Rightarrow> w32" where
  "Ch x y z = (x AND y) XOR (NOT x AND z)"

definition Maj :: "w32 \<Rightarrow> w32 \<Rightarrow> w32 \<Rightarrow> w32" where
  "Maj x y z = (x AND y) XOR (x AND z) XOR (y AND z)"

definition bsig0 :: "w32 \<Rightarrow> w32" where
  "bsig0 x = rotr 2 x XOR rotr 13 x XOR rotr 22 x"

definition bsig1 :: "w32 \<Rightarrow> w32" where
  "bsig1 x = rotr 6 x XOR rotr 11 x XOR rotr 25 x"

definition ssig0 :: "w32 \<Rightarrow> w32" where
  "ssig0 x = rotr 7 x XOR rotr 18 x XOR drop_bit 3 x"

definition ssig1 :: "w32 \<Rightarrow> w32" where
  "ssig1 x = rotr 17 x XOR rotr 19 x XOR drop_bit 10 x"

definition be_bytes :: "nat \<Rightarrow> nat \<Rightarrow> byte list" where
  "be_bytes n x = map (\<lambda>i. of_nat (x div 256 ^ (n - 1 - i))) [0..<n]"

definition be_word :: "byte list \<Rightarrow> w32" where
  "be_word bs = foldl (\<lambda>acc b. push_bit 8 acc OR ucast b) 0 bs"

definition sha256_pad :: "byte list \<Rightarrow> byte list" where
  "sha256_pad msg =
     msg @ [0x80] @ replicate ((64 - (length msg + 9) mod 64) mod 64) 0
       @ be_bytes 8 (8 * length msg)"

function chunks :: "nat \<Rightarrow> 'a list \<Rightarrow> 'a list list" where
  "chunks n xs = (if n = 0 \<or> xs = [] then [] else take n xs # chunks n (drop n xs))"
  by pat_completeness auto
termination
  by (relation "measure (\<lambda>(n, xs). length xs)") auto

declare chunks.simps [simp del]

fun schedule :: "nat \<Rightarrow> w32 list \<Rightarrow> w32 list" where
  "schedule 0 w = w"
| "schedule (Suc n) w =
     (let t = length w
      in schedule n (w @ [ssig1 (w ! (t - 2)) + w ! (t - 7) + ssig0 (w ! (t - 15)) + w ! (t - 16)]))"

definition round256 :: "w32 list \<Rightarrow> w32 \<times> w32 \<Rightarrow> w32 list" where
  "round256 st kw =
     (case st of
        [a, b, c, d, e, f, g, h] \<Rightarrow>
          (let t1 = h + bsig1 e + Ch e f g + fst kw + snd kw;
               t2 = bsig0 a + Maj a b c
           in [t1 + t2, a, b, c, d + t1, e, f, g])
      | _ \<Rightarrow> st)"

definition compress :: "w32 list \<Rightarrow> byte list \<Rightarrow> w32 list" where
  "compress hs block =
     (let w = schedule 48 (map be_word (chunks 4 block))
      in map2 (+) hs (foldl round256 hs (zip K256 w)))"

definition sha256 :: "byte list \<Rightarrow> byte list" where
  "sha256 msg =
     concat (map (\<lambda>x. be_bytes 4 (unat x)) (foldl compress H256 (chunks 64 (sha256_pad msg))))"

definition hmac_sha256 :: "byte list \<Rightarrow> byte list \<Rightarrow> byte list" where
  "hmac_sha256 key msg =
     (let k0 = (if 64 < length key then sha256 key else key);
          k = k0 @ replicate (64 - length k0) 0
      in sha256 (map (\<lambda>b. b XOR 0x5c) k @ sha256 (map (\<lambda>b. b XOR 0x36) k @ msg)))"

text \<open>The \<open>Hmac\<close> object: \<open>createHmac\<close>, \<open>update(s, 'utf8')\<close>, \<open>digest('hex')\<close>.\<close>

record hmac_obj =
  hmac_key :: "byte list"
  hmac_data :: "byte list"

definition utf8 :: "string \<Rightarrow> byte list" where
  "utf8 s = map of_char s"

definition createHmac :: "byte list \<Rightarrow> hmac_obj" where
  "createHmac key = \<lparr>hmac_key = key, hmac_data = []\<rparr>"

definition hmac_update :: "hmac_obj \<Rightarrow> string \<Rightarrow> hmac_obj" where
  "hmac_update h s = h\<lparr>hmac_data := hmac_data h @ utf8 s\<rparr>"

definition hex_of_byte :: "byte \<Rightarrow> string" where
  "hex_of_byte b = [digit_char (unat b div 16), digit_char (unat b mod 16)]"

definition hmac_digest_hex :: "hmac_obj \<Rightarrow> string" where
  "hmac_digest_hex h = concat (map hex_of_byte (hmac_sha256 (hmac_key h) (hmac_data h)))"

text \<open>\<open>s.toUpperCase()\<close>, on the ASCII letters (it is only applied to a hexadecimal
  digest).\<close>

definition upper_char :: "char \<Rightarrow> char" where
  "upper_char c =
     (if c = CHR ''a'' then CHR ''A'' else if c = CHR ''b'' then CHR ''B''
      else if c = CHR ''c'' then CHR ''C'' else if c = CHR ''d'' then CHR ''D''
      else if c = CHR ''e'' then CHR ''E'' else if c = CHR ''f'' then CHR ''F''
      else if c = CHR ''g'' then CHR ''G'' else if c = CHR ''h'' then CHR ''H''
      else if c = CHR ''i'' then CHR ''I'' else if c = CHR ''j'' then CHR ''J''
      else if c = CHR ''k'' then CHR ''K'' else if c = CHR ''l'' then CHR ''L''
      else if c = CHR ''m'' then CHR ''M'' else if c = CHR ''n'' then CHR ''N''
      else if c = CHR ''o'' then CHR ''O'' else if c = CHR ''p'' then CHR ''P''
      else if c = CHR ''q'' then CHR ''Q'' else if c = CHR ''r'' then CHR ''R''
      else if c = CHR ''s'' then CHR ''S'' else if c = CHR ''t'' then CHR ''T''
      else if c = CHR ''u'' then CHR ''U'' else if c = CHR ''v'' then CHR ''V''
      else if c = CHR ''w'' then CHR ''W'' else if c = CHR ''x'' then CHR ''X''
      else if c = CHR ''y'' then CHR ''Y'' else if c = CHR ''z'' then CHR ''Z''
      else c)"

definition toUpperCase :: "string \<Rightarrow> string" where
  "toUpperCase s = map upper_char s"

text \<open>\<open>Buffer.from(v, 'hex')\<close> on the scalar values of the model: a \<open>TypeError\<close> unless \<open>v\<close> is
  a string. (Node also accepts buffers and arrays there; the model has no such values, and
  nothing below is stated about them.)\<close>

fun hex_decode_node :: "string \<Rightarrow> byte list" where
  "hex_decode_node (a # b # rest) =
     (if is_digit 16 a \<and> is_digit 16 b
      then of_nat (digits_value 16 [a, b]) # hex_decode_node rest
      else [])"
| "hex_decode_node _ = []"

definition received :: "jsval \<Rightarrow> string" where
  "received v =
     (case v of
        JUndefined \<Rightarrow> ''Received undefined''
      | JNull \<Rightarrow> ''Received null''
      | JBool b \<Rightarrow> ''Received type boolean ('' @ ToString v @ '')''
      | JNum x \<Rightarrow> ''Received type number ('' @ ToString v @ '')''
      | JStr s \<Rightarrow> ''Received type string'')"

definition Buffer_from_hex :: "jsval \<Rightarrow> string + byte list" where
  "Buffer_from_hex v =
     (case v of
        JStr s \<Rightarrow> Inr (hex_decode_node s)
      | _ \<Rightarrow> Inl (''The first argument must be of type string or an instance of Buffer, ''
                 @ ''ArrayBuffer, or Array or an Array-like Object. '' @ received v))"

section \<open>utils/hash.js\<close>

text \<open>A thrown \<open>Error\<close> is the left summand, carrying its message.\<close>

definition generateSecureHash :: "jsval \<Rightarrow> jsval \<Rightarrow> jsval \<Rightarrow> jsval \<Rightarrow> string + string" where
  "generateSecureHash dateTimeLocalTrxn merchantId terminalId merchantSecretKey =
     (let dataString = ''DateTimeLocalTrxn='' @ ToString dateTimeLocalTrxn
            @ ''&MerchantId='' @ ToString merchantId
            @ ''&TerminalId='' @ ToString terminalId
      in case Buffer_from_hex merchantSecretKey of
           Inl msg \<Rightarrow> Inl (''Failed to generate secure hash: '' @ msg)
         | Inr keyBuffer \<Rightarrow>
             Inr (toUpperCase (hmac_digest_hex (hmac_update (createHmac keyBuffer) dataString))))"

text \<open>The clock is an input: the fields \<open>new Date()\<close> is read through.\<close>

record js_date =
  getFullYear :: nat
  getMonth :: nat
  getDate :: nat
  getHours :: nat
  getMinutes :: nat
  getSeconds :: nat
  getMilliseconds :: nat

definition slice_last :: "nat \<Rightarrow> string \<Rightarrow> string" where
  "slice_last n s = drop (length s - n) s"

definition generateTransactionDateTime :: "js_date \<Rightarrow> string" where
  "generateTransactionDateTime now =
     (let year = slice_last 2 (show_nat (getFullYear now));
          month = padStart0 2 (show_nat (getMonth now + 1));
          day = padStart0 2 (show_nat (getDate now));
          hours = padStart0 2 (show_nat (getHours now));
          minutes = padStart0 2 (show_nat (getMinutes now));
          seconds = padStart0 2 (show_nat (getSeconds now));
          milliseconds = take 2 (padStart0 3 (show_nat (getMilliseconds now)))
      in year @ month @ day @ hours @ minutes @ seconds @ milliseconds)"

section \<open>services/upgService.js\<close>

text \<open>
  What the program catches and throws is a JavaScript error object; the fields the code
  reads are kept: \<open>message\<close>, \<open>code\<close> (absent for a plain \<open>Error\<close>), \<open>response\<close> (status and
  data, when the upstream answered), and whether \<open>request\<close> and \<open>timeout\<close> are truthy.
\<close>

record 'r js_error =
  message :: string
  code :: "string option"
  response :: "(nat \<times> 'r) option"
  request :: bool
  timeout :: bool

definition new_Error :: "string \<Rightarrow> 'r js_error" where
  "new_Error msg = \<lparr>message = msg, code = None, response = None, request = False, timeout = False\<rparr>"

text \<open>
  The network is an input of the model: what one \<open>axios.post\<close> call meets is either an HTTP
  response (status and parsed body, after redirects) or a failure without a response
  (message, code, and whether the error carries a request and a truthy \<open>timeout\<close>). The
  upstream is scripted: its answers are given, they are not computed from what is sent.
  What the program sends and how long it sleeps is recorded as a list of events.
\<close>

datatype 'r outcome = HttpResponse nat 'r | Failed string "string option" bool bool

datatype event = Post obj | Sleep nat

definition validateStatus :: "nat \<Rightarrow> bool" where
  "validateStatus status = (status < 500)"

text \<open>\<open>axios.post\<close> with a \<open>validateStatus\<close> option: the promise resolves with the response when
  the status is accepted, and rejects with an error that carries the response otherwise.\<close>

definition axios_post :: "(nat \<Rightarrow> bool) \<Rightarrow> 'r outcome \<Rightarrow> 'r js_error + nat \<times> 'r" where
  "axios_post accept out =
     (case out of
        HttpResponse status d \<Rightarrow>
          if accept status then Inr (status, d)
          else Inl \<lparr>message = ''Request failed with status code '' @ show_nat status,
                    code = (if 400 \<le> status \<and> status < 500 then Some ''ERR_BAD_REQUEST''
                            else if 500 \<le> status \<and> status < 600 then Some ''ERR_BAD_RESPONSE''
                            else None),
                    response = Some (status, d), request = True, timeout = False\<rparr>
      | Failed msg c req tmo \<Rightarrow>
          Inl \<lparr>message = msg, code = c, response = None, request = req, timeout = tmo\<rparr>)"

definition requiredFields :: "string list" where
  "requiredFields =
     [''amountTrxn'', ''currency'', ''mobileNumber'', ''merchantId'', ''terminalId'',
      ''merchantSecretKey'']"

text \<open>The loop over \<open>requiredFields\<close>: the message of the error it throws, if any.\<close>

fun validate_required :: "obj \<Rightarrow> string list \<Rightarrow> string option" where
  "validate_required paymentData [] = None"
| "validate_required paymentData (field # others) =
     (if \<not> truthy (get_prop paymentData field) then Some (''Missing required field: '' @ field)
      else validate_required paymentData others)"

definition js_or :: "jsval \<Rightarrow> jsval \<Rightarrow> jsval" where
  "js_or a b = (if truthy a then a else b)"

text \<open>The object \<open>requestPayload\<close>, as built between the signing and the call.\<close>

definition requestPayload_of :: "obj \<Rightarrow> string \<Rightarrow> string \<Rightarrow> obj" where
  "requestPayload_of paymentData dateTimeLocalTrxn secureHash =
     (let p0 = [(''AmountTrxn'', JNum (parseInt (get_prop paymentData ''amountTrxn''))),
                (''Currency'', JNum (parseInt (get_prop paymentData ''currency''))),
                (''MerchantReference'', js_or (get_prop paymentData ''merchantReference'') (JStr [])),
                (''MobileNumber'', get_prop paymentData ''mobileNumber''),
                (''MerchantId'', get_prop paymentData ''merchantId''),
                (''TerminalId'', get_prop paymentData ''terminalId''),
                (''DateTimeLocalTrxn'', JStr dateTimeLocalTrxn),
                (''SecureHash'', JStr secureHash)];
          p1 = (if truthy (get_prop paymentData ''validity'')
                then set_prop p0 ''Validity'' (JStr (ToString (get_prop paymentData ''validity'')))
                else p0);
          p2 = (if truthy (get_prop paymentData ''loyaltyNumber'')
                then set_prop p1 ''LoyaltyNumber'' (get_prop paymentData ''loyaltyNumber'')
                else p1);
          p3 = (if truthy (get_prop paymentData ''customerLabel'')
                then set_prop p2 ''CustomerLabel'' (get_prop paymentData ''customerLabel'')
                else p2);
          p4 = (if truthy (get_prop paymentData ''purposeOfTransaction'')
                then set_prop p3 ''PurposeOfTransaction'' (get_prop paymentData ''purposeOfTransaction'')
                else p3);
          p5 = (if truthy (get_prop paymentData ''billNumber'')
                then set_prop p4 ''BillNumber'' (get_prop paymentData ''billNumber'')
                else p4);
          p6 = (if get_prop paymentData ''tip'' = JBool True
                then set_prop p5 ''Tip'' (JBool True)
                else p5);
          p7 = (if truthy (get_prop paymentData ''convenienceFeeFixed'')
                   \<and> \<not> truthy (get_prop paymentData ''tip'')
                   \<and> \<not> truthy (get_prop paymentData ''convenienceFeePercentage'')
                then set_prop p6 ''ConvenienceFeeFixed''
                       (JNum (parseFloat (get_prop paymentData ''convenienceFeeFixed'')))
                else p6)
      in if truthy (get_prop paymentData ''convenienceFeePercentage'')
            \<and> \<not> truthy (get_prop paymentData ''tip'')
            \<and> \<not> truthy (get_prop paymentData ''convenienceFeeFixed'')
         then set_prop p7 ''ConvenienceFeePercentage''
                (JNum (parseFloat (get_prop paymentData ''convenienceFeePercentage'')))
         else p7)"

definition show_code :: "string option \<Rightarrow> string" where
  "show_code c = (case c of None \<Rightarrow> ''undefined'' | Some s \<Rightarrow> s)"

text \<open>The outer \<open>catch\<close>: the message of the \<open>Error\<close> that \<open>requestToPay\<close> rejects with.
  \<open>JSON.stringify\<close> on the response data is a parameter.\<close>

definition catch_error :: "('r \<Rightarrow> string) \<Rightarrow> 'r js_error \<Rightarrow> string" where
  "catch_error stringify error =
     (case response error of
        Some (status, d) \<Rightarrow> ''UPG API Error ('' @ show_nat status @ ''): '' @ stringify d
      | None \<Rightarrow>
          if request error then
            (if code error = Some ''ENOTFOUND'' then
               ''DNS resolution failed. Unable to resolve UPG API hostname. ''
                 @ ''Check internet connectivity and DNS settings.''
             else if code error = Some ''ECONNREFUSED'' then
               ''Connection refused by UPG API server. ''
                 @ ''The service may be down or blocked by firewall.''
             else if code error = Some ''ETIMEDOUT'' \<or> timeout error then
               ''Request timeout. UPG API server is not responding within the expected time.''
             else if code error = Some ''ECONNRESET'' then
               ''Connection reset by UPG API server. Network interruption occurred.''
             else
               ''Network connectivity issue ('' @ show_code (code error) @ ''): '' @ message error
                 @ ''. Please check AWS security groups, NAT gateway, and internet connectivity.'')
          else ''Request setup error: '' @ message error)"

text \<open>\<open>requestToPay\<close>: the value the promise resolves with (right) or the message of the
  error it rejects with (left), and the events on the way.\<close>

definition requestToPay ::
  "('r \<Rightarrow> string) \<Rightarrow> js_date \<Rightarrow> 'r outcome \<Rightarrow> obj \<Rightarrow> (string + 'r) \<times> event list" where
  "requestToPay stringify now upstream paymentData =
     (case validate_required paymentData requiredFields of
        Some msg \<Rightarrow> (Inl (catch_error stringify (new_Error msg)), [])
      | None \<Rightarrow>
          let dateTimeLocalTrxn = generateTransactionDateTime now
          in case generateSecureHash (JStr dateTimeLocalTrxn)
                    (get_prop paymentData ''merchantId'')
                    (get_prop paymentData ''terminalId'')
                    (get_prop paymentData ''merchantSecretKey'') of
               Inl msg \<Rightarrow> (Inl (catch_error stringify (new_Error msg)), [])
             | Inr secureHash \<Rightarrow>
                 let requestPayload = requestPayload_of paymentData dateTimeLocalTrxn secureHash
                 in case axios_post validateStatus upstream of
                      Inl error \<Rightarrow> (Inl (catch_error stringify error), [Post requestPayload])
                    | Inr (status, d) \<Rightarrow> (Inr d, [Post requestPayload]))"

subsection \<open>The revision with retries\<close>

definition maxRetries :: nat where
  "maxRetries = 3"

definition retryable :: "'r js_error \<Rightarrow> bool" where
  "retryable error =
     (code error = Some ''ECONNABORTED'' \<or> code error = Some ''ETIMEDOUT''
      \<or> code error = Some ''ECONNRESET'' \<or> str_includes (message error) ''timeout'')"

text \<open>The \<open>for\<close> loop from \<open>attempt\<close> on; \<open>upstream n\<close> is what the \<open>n\<close>-th call meets. The result
  is the response data, or the value of \<open>lastError\<close> that is thrown after the loop
  (\<open>None\<close> when it was never assigned).\<close>

function attempts ::
  "(nat \<Rightarrow> 'r outcome) \<Rightarrow> obj \<Rightarrow> 'r js_error option \<Rightarrow> nat
    \<Rightarrow> ('r js_error option + 'r) \<times> event list" where
  "attempts upstream requestPayload lastError attempt =
     (if attempt \<le> maxRetries then
        (case axios_post validateStatus (upstream attempt) of
           Inr (status, d) \<Rightarrow> (Inr d, [Post requestPayload])
         | Inl error \<Rightarrow>
             if attempt < maxRetries \<and> retryable error then
               (let delay = attempt * 3000;
                    rest = attempts upstream requestPayload (Some error) (attempt + 1)
                in (fst rest, Post requestPayload # Sleep delay # snd rest))
             else (Inl (Some error), [Post requestPayload]))
      else (Inl lastError, []))"
  by pat_completeness auto
termination
  by (relation "measure (\<lambda>(upstream, requestPayload, lastError, attempt). maxRetries + 1 - attempt)")
    auto

declare attempts.simps [simp del]

definition catch_error_retry :: "('r \<Rightarrow> string) \<Rightarrow> string \<Rightarrow> 'r js_error option \<Rightarrow> string" where
  "catch_error_retry stringify UPG_BASE_URL thrown =
     (case thrown of
        None \<Rightarrow> ''Cannot read properties of undefined (reading '' @ [CHR 0x27] @ ''message''
                  @ [CHR 0x27] @ '')''
      | Some error \<Rightarrow>
         (case response error of
            Some (status, d) \<Rightarrow> ''UPG API Error ('' @ show_nat status @ ''): '' @ stringify d
          | None \<Rightarrow>
              if request error then
                (if code error = Some ''ENOTFOUND'' then
                   ''DNS resolution failed for '' @ [CHR 0x27] @ UPG_BASE_URL @ [CHR 0x27]
                     @ ''. This indicates AWS VPC DNS configuration issues. Check: ''
                     @ ''1) VPC DNS resolution enabled, 2) VPC DNS hostnames enabled, ''
                     @ ''3) Security group allows port 53 (DNS), ''
                     @ ''4) Route table has internet gateway/NAT gateway, ''
                     @ ''5) /etc/resolv.conf has valid nameservers.''
                 else if code error = Some ''ECONNREFUSED'' then
                   ''Connection refused by UPG API server. ''
                     @ ''The service may be down or blocked by firewall.''
                 else if code error = Some ''ETIMEDOUT'' \<or> timeout error then
                   ''Request timeout. UPG API server is not responding within the expected time.''
                 else if code error = Some ''ECONNRESET'' then
                   ''Connection reset by UPG API server. Network interruption occurred.''
                 else if code error = Some ''ECONNABORTED'' then
                   ''Request timeout after 90 seconds. This may indicate slow network or AWS NAT ''
                     @ ''Gateway issues. Check AWS VPC configuration.''
                 else
                   ''Network connectivity issue ('' @ show_code (code error) @ ''): ''
                     @ message error
                     @ ''. Please check AWS security groups, NAT gateway, and internet connectivity.'')
              else ''Request setup error: '' @ message error))"

definition requestToPay_retry ::
  "('r \<Rightarrow> string) \<Rightarrow> string \<Rightarrow> js_date \<Rightarrow> (nat \<Rightarrow> 'r outcome) \<Rightarrow> obj
    \<Rightarrow> (string + 'r) \<times> event list" where
  "requestToPay_retry stringify UPG_BASE_URL now upstream paymentData =
     (case validate_required paymentData requiredFields of
        Some msg \<Rightarrow> (Inl (catch_error_retry stringify UPG_BASE_URL (Some (new_Error msg))), [])
      | None \<Rightarrow>
          let dateTimeLocalTrxn = generateTransactionDateTime now
          in case generateSecureHash (JStr dateTimeLocalTrxn)
                    (get_prop paymentData ''merchantId'')
                    (get_prop paymentData ''terminalId'')
                    (get_prop paymentData ''merchantSecretKey'') of
               Inl msg \<Rightarrow>
                 (Inl (catch_error_retry stringify UPG_BASE_URL (Some (new_Error msg))), [])
             | Inr secureHash \<Rightarrow>
                 let requestPayload = requestPayload_of paymentData dateTimeLocalTrxn secureHash
                 in case attempts upstream requestPayload None 1 of
                      (Inl thrown, tr) \<Rightarrow> (Inl (catch_error_retry stringify UPG_BASE_URL thrown), tr)
                    | (Inr d, tr) \<Rightarrow> (Inr d, tr))"

section \<open>server.js: POST /api/request-to-pay\<close>

text \<open>The configuration is read from the environment at start-up; the three credentials are
  non-empty strings there, or the process exits.\<close>

record config =
  MERCHANT_ID :: string
  TERMINAL_ID :: string
  MERCHANT_SECRET_KEY :: string
  CURRENCY_EGP :: jsnum
  DEFAULT_VALIDITY :: string

text \<open>The reply: a status with \<open>{success: false, error}\<close>, or status 200 with
  \<open>{success: true, data, paymentData: {amount, mobileNumber, merchantReference}}\<close>.\<close>

datatype 'r reply = ErrorReply nat string | SuccessReply 'r jsval jsval jsval

text \<open>\<open>v.trim()\<close> on a truthy value: a \<open>TypeError\<close> unless it is a string.\<close>

definition trim_method :: "string \<Rightarrow> jsval \<Rightarrow> string + jsval" where
  "trim_method name v =
     (case v of JStr s \<Rightarrow> Inr (JStr (trim s)) | _ \<Rightarrow> Inl (name @ ''.trim is not a function''))"

text \<open>\<open>if (v) paymentData.name = v.trim()\<close>.\<close>

definition set_trimmed :: "obj \<Rightarrow> string \<Rightarrow> jsval \<Rightarrow> string + obj" where
  "set_trimmed paymentData name v =
     (if truthy v
      then (case trim_method name v of
              Inl e \<Rightarrow> Inl e
            | Inr t \<Rightarrow> Inr (set_prop paymentData name t))
      else Inr paymentData)"

text \<open>The object \<open>paymentData\<close> the handler hands to \<open>requestToPay\<close>, or the message of the
  \<open>TypeError\<close> met while building it. \<open>nowMs\<close> is \<open>Date.now()\<close>.\<close>

definition paymentData_of :: "config \<Rightarrow> nat \<Rightarrow> obj \<Rightarrow> jsnum \<Rightarrow> string + obj" where
  "paymentData_of CONFIG nowMs body amountInPiasters =
     (let tip = get_prop body ''tip'';
          convenienceFeeFixed = get_prop body ''convenienceFeeFixed'';
          convenienceFeePercentage = get_prop body ''convenienceFeePercentage''
      in case trim_method ''mobileNumber'' (get_prop body ''mobileNumber'') of
           Inl e \<Rightarrow> Inl e
         | Inr mobile \<Rightarrow>
        (case set_trimmed
                [(''amountTrxn'', JNum amountInPiasters),
                 (''currency'', JNum (CURRENCY_EGP CONFIG)),
                 (''mobileNumber'', mobile),
                 (''merchantId'', JStr (MERCHANT_ID CONFIG)),
                 (''terminalId'', JStr (TERMINAL_ID CONFIG)),
                 (''merchantSecretKey'', JStr (MERCHANT_SECRET_KEY CONFIG)),
                 (''merchantReference'',
                    js_or (get_prop body ''merchantReference'') (JStr (''REF_'' @ show_nat nowMs))),
                 (''validity'', js_or (get_prop body ''validity'') (JStr (DEFAULT_VALIDITY CONFIG)))]
                ''loyaltyNumber'' (get_prop body ''loyaltyNumber'') of
           Inl e \<Rightarrow> Inl e
         | Inr d1 \<Rightarrow>
        (case set_trimmed d1 ''customerLabel'' (get_prop body ''customerLabel'') of
           Inl e \<Rightarrow> Inl e
         | Inr d2 \<Rightarrow>
        (case set_trimmed d2 ''purposeOfTransaction'' (get_prop body ''purposeOfTransaction'') of
           Inl e \<Rightarrow> Inl e
         | Inr d3 \<Rightarrow>
        (case set_trimmed d3 ''billNumber'' (get_prop body ''billNumber'') of
           Inl e \<Rightarrow> Inl e
         | Inr d4 \<Rightarrow>
             let d5 = (if tip = JStr ''true'' then set_prop d4 ''tip'' (JBool True) else d4);
                 d6 = (if truthy convenienceFeeFixed \<and> \<not> truthy tip
                       then set_prop d5 ''convenienceFeeFixed'' (JNum (parseFloat convenienceFeeFixed))
                       else d5)
             in Inr (if truthy convenienceFeePercentage \<and> \<not> truthy tip
                        \<and> \<not> truthy convenienceFeeFixed
                     then set_prop d6 ''convenienceFeePercentage''
                            (JNum (parseFloat convenienceFeePercentage))
                     else d6))))))"

definition error_or_default :: "string \<Rightarrow> string" where
  "error_or_default msg = (if msg = [] then ''Payment request failed'' else msg)"

definition request_to_pay_route ::
  "('r \<Rightarrow> string) \<Rightarrow> config \<Rightarrow> nat \<Rightarrow> js_date \<Rightarrow> 'r outcome \<Rightarrow> obj
    \<Rightarrow> 'r reply \<times> event list" where
  "request_to_pay_route stringify CONFIG nowMs now upstream body =
     (let amount = get_prop body ''amount'';
          mobileNumber = get_prop body ''mobileNumber''
      in if \<not> truthy amount \<or> \<not> truthy mobileNumber
         then (ErrorReply 400 ''Amount and Mobile Number are required fields.'', [])
         else
           let amountInPiasters = Math_round (num_times (parseFloat amount) (Finite 1 2))
           in if num_le_zero amountInPiasters
              then (ErrorReply 400 ''Amount must be greater than zero.'', [])
              else
                (case paymentData_of CONFIG nowMs body amountInPiasters of
                   Inl msg \<Rightarrow> (ErrorReply 500 (error_or_default msg), [])
                 | Inr paymentData \<Rightarrow>
                     (case requestToPay stringify now upstream paymentData of
                        (Inl msg, tr) \<Rightarrow> (ErrorReply 500 (error_or_default msg), tr)
                      | (Inr result, tr) \<Rightarrow>
                          (SuccessReply result amount mobileNumber
                             (get_prop paymentData ''merchantReference''), tr))))"


section \<open>Notions of the specification\<close>

text \<open>The canonical string, the hexadecimal decoding of a well-formed key (\<open>None\<close> on a
  string that is not an even number of hexadecimal digits) and the uppercase hexadecimal
  encoding, as the specification words them.\<close>

definition canonical_string :: "string \<Rightarrow> string \<Rightarrow> string \<Rightarrow> string" where
  "canonical_string t m term =
     ''DateTimeLocalTrxn='' @ t @ ''&MerchantId='' @ m @ ''&TerminalId='' @ term"

fun hexDecode :: "string \<Rightarrow> byte list option" where
  "hexDecode [] = Some []"
| "hexDecode [a] = None"
| "hexDecode (a # b # rest) =
     (if is_digit 16 a \<and> is_digit 16 b
      then map_option ((#) (of_nat (digits_value 16 [a, b]))) (hexDecode rest)
      else None)"


definition upper_hex_of_byte :: "byte \<Rightarrow> string" where
  "upper_hex_of_byte b =
     [''0123456789ABCDEF'' ! (unat b div 16), ''0123456789ABCDEF'' ! (unat b mod 16)]"

definition upper_hex :: "byte list \<Rightarrow> string" where
  "upper_hex bs = concat (map upper_hex_of_byte bs)"

definition is_string :: "jsval \<Rightarrow> bool" where
  "is_string v = (case v of JStr s \<Rightarrow> True | _ \<Rightarrow> False)"

text \<open>The payloads a run has sent, in order.\<close>

definition wire_payloads :: "event list \<Rightarrow> obj list" where
  "wire_payloads tr = concat (map (\<lambda>e. case e of Post p \<Rightarrow> [p] | Sleep d \<Rightarrow> []) tr)"

text \<open>A clock reading and a well-formed payment request, for the examples.\<close>

definition example_date :: js_date where
  "example_date = \<lparr>getFullYear = 2024, getMonth = 0, getDate = 5, getHours = 13, getMinutes = 7,
     getSeconds = 9, getMilliseconds = 45\<rparr>"

definition example_paymentData :: obj where
  "example_paymentData =
     [(''amountTrxn'', JNum (Finite 105 1)), (''currency'', JNum (Finite 818 0)),
      (''mobileNumber'', JStr ''01012345678''), (''merchantId'', JStr ''M1''),
      (''terminalId'', JStr ''T1''), (''merchantSecretKey'', JStr ''0b0b'')]"

text \<open>Reading a trace: the number of attempts, the delays, and the trace of \<open>n\<close> attempts
  with the backoff of the specification, the first attempt numbered \<open>k\<close>.\<close>

definition count_posts :: "event list \<Rightarrow> nat" where
  "count_posts tr = length (wire_payloads tr)"

definition delays :: "event list \<Rightarrow> nat list" where
  "delays tr = concat (map (\<lambda>e. case e of Post p \<Rightarrow> [] | Sleep d \<Rightarrow> [d]) tr)"

fun backoff_trace :: "obj \<Rightarrow> nat \<Rightarrow> nat \<Rightarrow> event list" where
  "backoff_trace p k 0 = []"
| "backoff_trace p k (Suc 0) = [Post p]"
| "backoff_trace p k (Suc (Suc n)) = Post p # Sleep (k * 3000) # backoff_trace p (Suc k) (Suc n)"

text \<open>The outcomes after which the policy allows another attempt.\<close>

definition retry_class :: "'r outcome \<Rightarrow> bool" where
  "retry_class out =
     (case out of
        HttpResponse status d \<Rightarrow> False
      | Failed msg c req tmo \<Rightarrow>
          c = Some ''ECONNABORTED'' \<or> c = Some ''ETIMEDOUT'' \<or> c = Some ''ECONNRESET''
          \<or> str_includes msg ''timeout'')"






text \<open>The optional text fields the endpoint trims, the keys it leaves alone, and a
  configuration that passed the start-up check.\<close>

definition trimmed_fields :: "string list" where
  "trimmed_fields = [''loyaltyNumber'', ''customerLabel'', ''purposeOfTransaction'', ''billNumber'']"

definition other_key :: "string \<Rightarrow> bool" where
  "other_key k = (k \<notin> set [''loyaltyNumber'', ''customerLabel'', ''purposeOfTransaction'', ''billNumber''])"

definition well_formed_config :: "config \<Rightarrow> bool" where
  "well_formed_config CONFIG =
     (MERCHANT_ID CONFIG \<noteq> [] \<and> TERMINAL_ID CONFIG \<noteq> [] \<and> MERCHANT_SECRET_KEY CONFIG \<noteq> []
      \<and> num_truthy (CURRENCY_EGP CONFIG))"

text \<open>More example inputs: an upstream that times out twice, a DNS failure, a
  configuration, and requests with both fees.\<close>

definition example_upstream :: "nat \<Rightarrow> string outcome" where
  "example_upstream n =
     (if n < 3 then Failed ''timeout of 90000ms exceeded'' (Some ''ECONNABORTED'') True False
      else HttpResponse 200 ''ok'')"



definition example_config :: config where
  "example_config = \<lparr>MERCHANT_ID = ''M1'', TERMINAL_ID = ''T1'', MERCHANT_SECRET_KEY = ''0b0b'',
     CURRENCY_EGP = Finite 818 0, DEFAULT_VALIDITY = ''30''\<rparr>"

definition example_body :: obj where
  "example_body = [(''amount'', JStr ''10.50''), (''mobileNumber'', JStr ''01012345678'')]"

definition both_fees_body :: obj where
  "both_fees_body = example_body @
     [(''convenienceFeeFixed'', JStr ''5''), (''convenienceFeePercentage'', JStr ''2'')]"

definition both_fees_paymentData :: obj where
  "both_fees_paymentData = example_paymentData @
     [(''convenienceFeeFixed'', JNum (Finite 5 0)), (''convenienceFeePercentage'', JNum (Finite 2 0))]"

section \<open>Properties of the signer\<close>

lemma hexDecode_node: "hexDecode k = Some key \<Longrightarrow> hex_decode_node k = key"
  by (induction k arbitrary: key rule: hexDecode.induct) (auto split: if_splits)

lemma upper_digit_table: "map upper_char ''0123456789abcdef'' = ''0123456789ABCDEF''"
  by (simp add: upper_char_def)

lemma upper_digit_char: "n < 16 \<Longrightarrow> upper_char (digit_char n) = ''0123456789ABCDEF'' ! n"
proof -
  assume "n < 16"
  then have "n < length ''0123456789abcdef''" by simp
  then have "map upper_char ''0123456789abcdef'' ! n = upper_char (''0123456789abcdef'' ! n)"
    by (rule nth_map)
  then show ?thesis
    by (simp only: upper_digit_table digit_char_def)
qed

lemma unat_lt_256: "unat (b :: byte) < 256"
  using unsigned_less [of b] by simp

lemma upper_hex_of_byte: "map upper_char (hex_of_byte b) = upper_hex_of_byte b"
proof -
  have "unat b div 16 < 16" "unat b mod 16 < 16"
    using unat_lt_256 [of b] by simp_all
  then show ?thesis
    by (simp add: hex_of_byte_def upper_hex_of_byte_def upper_digit_char)
qed

lemma toUpperCase_hex: "toUpperCase (concat (map hex_of_byte bs)) = upper_hex bs"
  by (induction bs) (simp_all add: toUpperCase_def upper_hex_def upper_hex_of_byte)

lemma gsh_string:
  "generateSecureHash (JStr t) (JStr m) (JStr term) (JStr k) =
     Inr (upper_hex (hmac_sha256 (hex_decode_node k) (utf8 (canonical_string t m term))))"
  by (simp add: generateSecureHash_def Buffer_from_hex_def ToString_def hmac_digest_hex_def
      hmac_update_def createHmac_def canonical_string_def toUpperCase_hex)

lemma upper_digit_inj:
  assumes "n < 16" "m < 16" "''0123456789ABCDEF'' ! n = ''0123456789ABCDEF'' ! m"
  shows "n = m"
proof -
  have "distinct ''0123456789ABCDEF''" by simp
  moreover have "n < length ''0123456789ABCDEF''" "m < length ''0123456789ABCDEF''"
    using assms by simp_all
  ultimately show ?thesis
    using assms(3) nth_eq_iff_index_eq by blast
qed

lemma upper_hex_of_byte_inj:
  assumes "upper_hex_of_byte a = upper_hex_of_byte b"
  shows "a = b"
proof -
  have lt: "unat a div 16 < 16" "unat a mod 16 < 16" "unat b div 16 < 16" "unat b mod 16 < 16"
    using unat_lt_256 [of a] unat_lt_256 [of b] by simp_all
  from assms have "''0123456789ABCDEF'' ! (unat a div 16) = ''0123456789ABCDEF'' ! (unat b div 16)"
    and "''0123456789ABCDEF'' ! (unat a mod 16) = ''0123456789ABCDEF'' ! (unat b mod 16)"
    by (simp_all add: upper_hex_of_byte_def)
  then have "unat a div 16 = unat b div 16" "unat a mod 16 = unat b mod 16"
    using lt by (blast intro: upper_digit_inj)+
  then have "unat a = unat b"
    by (metis div_mult_mod_eq)
  then show ?thesis
    by (simp add: word_unat_eq_iff)
qed

lemma upper_hex_inj: "upper_hex xs = upper_hex ys \<Longrightarrow> xs = ys"
proof (induction xs arbitrary: ys)
  case Nil
  then show ?case by (cases ys) (simp_all add: upper_hex_def upper_hex_of_byte_def)
next
  case (Cons x xs)
  show ?case
  proof (cases ys)
    case Nil
    with Cons.prems show ?thesis by (simp add: upper_hex_def upper_hex_of_byte_def)
  next
    case (Cons y ys')
    with Cons.prems have "upper_hex_of_byte x = upper_hex_of_byte y" "upper_hex xs = upper_hex ys'"
      by (simp_all add: upper_hex_def upper_hex_of_byte_def)
    with Cons.IH Cons show ?thesis
      by (simp add: upper_hex_of_byte_inj)
  qed
qed

lemma unat_of_char: "unat (of_char c :: byte) = (of_char c :: nat)"
proof -
  have "(of_char c :: byte) = of_nat (of_char c)" by (simp only: of_nat_of_char)
  then have "unat (of_char c :: byte) = (of_char c :: nat) mod 256"
    by (simp only: unat_of_nat) simp
  then show ?thesis by simp
qed

lemma utf8_inj: "utf8 s = utf8 t \<Longrightarrow> s = t"
proof (induction s arbitrary: t)
  case Nil
  then show ?case by (simp add: utf8_def)
next
  case (Cons c s)
  then obtain d t' where t: "t = d # t'" by (cases t) (auto simp: utf8_def)
  with Cons.prems have "(of_char c :: byte) = of_char d" "utf8 s = utf8 t'"
    by (simp_all add: utf8_def)
  then have "(of_char c :: nat) = of_char d"
    by (metis unat_of_char)
  with Cons.IH \<open>utf8 s = utf8 t'\<close> t show ?case by simp
qed

lemma canonical_inj:
  "canonical_string t m term = canonical_string t' m term \<Longrightarrow> t = t'"
  "canonical_string t m term = canonical_string t m' term \<Longrightarrow> m = m'"
  "canonical_string t m term = canonical_string t m term' \<Longrightarrow> term = term'"
  by (simp_all add: canonical_string_def)

lemma canonical_differs:
  "t \<noteq> t' \<Longrightarrow> utf8 (canonical_string t m term) \<noteq> utf8 (canonical_string t' m term)"
  "m \<noteq> m' \<Longrightarrow> utf8 (canonical_string t m term) \<noteq> utf8 (canonical_string t m' term)"
  "term \<noteq> term' \<Longrightarrow> utf8 (canonical_string t m term) \<noteq> utf8 (canonical_string t m term')"
proof -
  show "utf8 (canonical_string t m term) \<noteq> utf8 (canonical_string t' m term)" if "t \<noteq> t'"
  proof
    assume "utf8 (canonical_string t m term) = utf8 (canonical_string t' m term)"
    then have "canonical_string t m term = canonical_string t' m term" by (rule utf8_inj)
    then have "t = t'" by (rule canonical_inj(1))
    with that show False by simp
  qed
  show "utf8 (canonical_string t m term) \<noteq> utf8 (canonical_string t m' term)" if "m \<noteq> m'"
  proof
    assume "utf8 (canonical_string t m term) = utf8 (canonical_string t m' term)"
    then have "canonical_string t m term = canonical_string t m' term" by (rule utf8_inj)
    then have "m = m'" by (rule canonical_inj(2))
    with that show False by simp
  qed
  show "utf8 (canonical_string t m term) \<noteq> utf8 (canonical_string t m term')" if "term \<noteq> term'"
  proof
    assume "utf8 (canonical_string t m term) = utf8 (canonical_string t m term')"
    then have "canonical_string t m term = canonical_string t m term'" by (rule utf8_inj)
    then have "term = term'" by (rule canonical_inj(3))
    with that show False by simp
  qed
qed

text \<open>
  C2. For every timestamp token, merchant id, terminal id and key that is well-formed
  hexadecimal, \<open>generateSecureHash\<close> returns the uppercase hexadecimal encoding of the
  HMAC-SHA256, under the decoded key, of the string
  \<open>DateTimeLocalTrxn=<t>&MerchantId=<m>&TerminalId=<term>\<close>.
\<close>

theorem generateSecureHash_refines_spec:
  assumes "hexDecode k = Some key"
  shows "generateSecureHash (JStr t) (JStr m) (JStr term) (JStr k) =
    Inr (upper_hex (hmac_sha256 key
      (utf8 (''DateTimeLocalTrxn='' @ t @ ''&MerchantId='' @ m @ ''&TerminalId='' @ term))))"
  using hexDecode_node [OF assms] by (simp add: gsh_string canonical_string_def)

theorem generateSecureHash_refines_spec_witness:
  "hexDecode ''0b0B'' = Some [0x0b, 0x0b] \<and>
   generateSecureHash (JStr ''24010112000000'') (JStr ''M1'') (JStr ''T1'') (JStr ''0b0B'') =
    Inr (upper_hex (hmac_sha256 [0x0b, 0x0b]
      (utf8 ''DateTimeLocalTrxn=24010112000000&MerchantId=M1&TerminalId=T1'')))"
proof -
  have h: "hexDecode ''0b0B'' = Some [0x0b, 0x0b]"
    by (simp add: is_digit_def digit_val_def digits_value_def)
  show ?thesis
    using h generateSecureHash_refines_spec [OF h, of "''24010112000000''" "''M1''" "''T1''"]
    by simp
qed

text \<open>
  C3, as stated, fails: the keys \<open>ab\<close> and \<open>AB\<close> differ and decode to the same byte, so the
  two signatures are equal.
\<close>

theorem signature_collision_counterexample:
  "''ab'' \<noteq> ''AB'' \<and>
   generateSecureHash (JStr ''24010112000000'') (JStr ''M1'') (JStr ''T1'') (JStr ''ab'') =
   generateSecureHash (JStr ''24010112000000'') (JStr ''M1'') (JStr ''T1'') (JStr ''AB'')"
proof -
  have "hex_decode_node ''ab'' = hex_decode_node ''AB''"
    by (simp add: is_digit_def digit_val_def digits_value_def)
  then show ?thesis by (simp add: gsh_string)
qed

text \<open>
  C3, amended. Two signatures are equal exactly when the HMAC-SHA256 digests of the decoded
  keys over the canonical strings are equal; and changing one of the timestamp token, the
  merchant id or the terminal id alone changes the bytes that are signed.
\<close>

theorem signature_equality:
  "(generateSecureHash (JStr t) (JStr m) (JStr term) (JStr k) =
      generateSecureHash (JStr t') (JStr m') (JStr term') (JStr k')
    \<longleftrightarrow> hmac_sha256 (hex_decode_node k) (utf8 (canonical_string t m term)) =
        hmac_sha256 (hex_decode_node k') (utf8 (canonical_string t' m' term')))
   \<and> (t \<noteq> t' \<longrightarrow> utf8 (canonical_string t m term) \<noteq> utf8 (canonical_string t' m term))
   \<and> (m \<noteq> m' \<longrightarrow> utf8 (canonical_string t m term) \<noteq> utf8 (canonical_string t m' term))
   \<and> (term \<noteq> term' \<longrightarrow> utf8 (canonical_string t m term) \<noteq> utf8 (canonical_string t m term'))"
proof -
  have "upper_hex x = upper_hex y \<longleftrightarrow> x = y" for x y
    using upper_hex_inj by blast
  then have "generateSecureHash (JStr t) (JStr m) (JStr term) (JStr k) =
      generateSecureHash (JStr t') (JStr m') (JStr term') (JStr k')
    \<longleftrightarrow> hmac_sha256 (hex_decode_node k) (utf8 (canonical_string t m term)) =
        hmac_sha256 (hex_decode_node k') (utf8 (canonical_string t' m' term'))"
    by (simp only: gsh_string sum.inject)
  moreover have "t \<noteq> t' \<longrightarrow> utf8 (canonical_string t m term) \<noteq> utf8 (canonical_string t' m term)"
    by (simp add: canonical_differs(1))
  moreover have "m \<noteq> m' \<longrightarrow> utf8 (canonical_string t m term) \<noteq> utf8 (canonical_string t m' term)"
    by (simp add: canonical_differs(2))
  moreover have "term \<noteq> term' \<longrightarrow> utf8 (canonical_string t m term) \<noteq> utf8 (canonical_string t m term')"
    by (simp add: canonical_differs(3))
  ultimately show ?thesis by (intro conjI)
qed

theorem signature_equality_witness:
  "''24010112000000'' \<noteq> ''24010112000001''
   \<and> utf8 (canonical_string ''24010112000000'' ''M1'' ''T1'')
       \<noteq> utf8 (canonical_string ''24010112000001'' ''M1'' ''T1'')
   \<and> ''M1'' \<noteq> ''M2''
   \<and> utf8 (canonical_string ''24010112000000'' ''M1'' ''T1'')
       \<noteq> utf8 (canonical_string ''24010112000000'' ''M2'' ''T1'')
   \<and> ''T1'' \<noteq> ''T2''
   \<and> utf8 (canonical_string ''24010112000000'' ''M1'' ''T1'')
       \<noteq> utf8 (canonical_string ''24010112000000'' ''M1'' ''T2'')"
  using signature_equality
    [of "''24010112000000''" "''M1''" "''T1''" "''ab''" "''24010112000001''" "''M2''" "''T2''" "''ab''"]
  by simp





section \<open>Printing and parsing integers\<close>

lemma strip10_spec:
  "0 < m \<Longrightarrow> strip10 m e = (m', e') \<Longrightarrow> 0 < m' \<and> e \<le> e' \<and> m = m' * 10 ^ nat (e' - e)"
proof (induction m e rule: strip10.induct)
  case (1 m e)
  show ?case
  proof (cases "m mod 10 = 0")
    case True
    with "1.prems" have pos: "0 < m div 10" by (simp add: pos_imp_zdiv_pos_iff) arith
    from True "1.prems" have "strip10 (m div 10) (e + 1) = (m', e')"
      by (subst (asm) strip10.simps) simp
    with "1.IH" True "1.prems"(1) pos
    have ih: "0 < m'" "e + 1 \<le> e'" "m div 10 = m' * 10 ^ nat (e' - (e + 1))" by auto
    have "nat (e' - e) = Suc (nat (e' - (e + 1)))" using ih(2) by simp
    then have "m' * 10 ^ nat (e' - e) = (m div 10) * 10" using ih(3) by simp
    also have "\<dots> = m" using True by (simp add: mod_eq_0_iff_dvd)
    finally show ?thesis using ih by simp
  next
    case False
    with "1.prems" show ?thesis by (subst (asm) strip10.simps) simp
  qed
qed

lemma mk_num_integer:
  assumes "0 < n"
  obtains m k where "mk_num n 0 = Finite m (int k)" "0 < m" "n = m * 10 ^ k"
proof -
  obtain m e where s: "strip10 n 0 = (m, e)" by (cases "strip10 n 0")
  from strip10_spec [OF assms s] have "0 < m" "0 \<le> e" "n = m * 10 ^ nat e" by simp_all
  moreover have "mk_num n 0 = Finite m (int (nat e))"
    using assms s \<open>0 \<le> e\<close> by (simp add: mk_num_def)
  ultimately show ?thesis using that by blast
qed

lemma digit_table: "map digit_val ''0123456789'' = map Some [0..<10]"
  by (simp add: digit_val_def upt_rec)

lemma digit_val_digit_char:
  assumes "d < 10"
  shows "digit_val (digit_char d) = Some d"
proof -
  have "digit_char d = ''0123456789'' ! d"
    using assms nth_append [of "''0123456789''" "''abcdef''" d] by (simp add: digit_char_def)
  then have "digit_val (digit_char d) = digit_val (''0123456789'' ! d)"
    by (rule arg_cong)
  also have "\<dots> = map digit_val ''0123456789'' ! d"
    using assms by (intro nth_map [symmetric]) simp
  also have "\<dots> = map Some [0..<10] ! d"
    by (simp only: digit_table)
  also have "\<dots> = Some d"
    using assms by simp
  finally show ?thesis .
qed

lemma digits_value_snoc:
  "digits_value r (ds @ [c]) = digits_value r ds * r + (case digit_val c of None \<Rightarrow> 0 | Some d \<Rightarrow> d)"
  by (simp add: digits_value_def)

lemma show_nat_digits: "\<forall>c \<in> set (show_nat n). is_digit 10 c"
proof (induction n rule: show_nat.induct)
  case (1 n)
  show ?case
  proof (cases "n < 10")
    case True
    then show ?thesis
      by (subst show_nat.simps) (simp add: is_digit_def digit_val_digit_char)
  next
    case False
    moreover have "is_digit 10 (digit_char (n mod 10))"
      by (simp add: is_digit_def digit_val_digit_char)
    ultimately show ?thesis using 1 by (subst show_nat.simps) simp
  qed
qed

lemma show_nat_value: "digits_value 10 (show_nat n) = n"
proof (induction n rule: show_nat.induct)
  case (1 n)
  show ?case
  proof (cases "n < 10")
    case True
    then show ?thesis
      by (subst show_nat.simps) (simp add: digits_value_def digit_val_digit_char)
  next
    case False
    then have "digits_value 10 (show_nat (n div 10)) = n div 10" using 1 by simp
    then show ?thesis using False
      by (subst show_nat.simps) (simp add: digits_value_snoc digit_val_digit_char)
  qed
qed

lemma show_nat_nonempty: "show_nat n \<noteq> []"
  by (subst show_nat.simps) simp

lemma show_nat_length: "0 < n \<Longrightarrow> 10 ^ (length (show_nat n) - 1) \<le> n"
proof (induction n rule: show_nat.induct)
  case (1 n)
  show ?case
  proof (cases "n < 10")
    case True
    with "1.prems" show ?thesis by (subst show_nat.simps) simp
  next
    case False
    then have "0 < n div 10" by simp
    with 1 False have ih: "10 ^ (length (show_nat (n div 10)) - 1) \<le> n div 10" by simp
    have "length (show_nat n) - 1 = Suc (length (show_nat (n div 10)) - 1)"
      using False show_nat_nonempty [of "n div 10"]
      by (subst show_nat.simps) (simp add: Suc_diff_Suc)
    then have "(10::nat) ^ (length (show_nat n) - 1) = 10 * 10 ^ (length (show_nat (n div 10)) - 1)"
      by simp
    also have "\<dots> \<le> 10 * (n div 10)" using ih by simp
    also have "\<dots> \<le> n" by simp
    finally show ?thesis .
  qed
qed

lemma zero_char_value: "digit_val CHR ''0'' = Some 0" "is_digit 10 CHR ''0''"
  by (simp_all add: digit_val_def is_digit_def)

lemma digits_value_zeros:
  "digits_value 10 (ds @ replicate k CHR ''0'') = digits_value 10 ds * 10 ^ k"
proof (induction k)
  case 0
  then show ?case by simp
next
  case (Suc k)
  have "ds @ replicate (Suc k) CHR ''0'' = (ds @ replicate k CHR ''0'') @ [CHR ''0'']"
    by (simp add: replicate_append_same)
  then show ?case using Suc by (simp only: digits_value_snoc zero_char_value) simp
qed

lemma digit_chars:
  assumes "is_digit 10 c"
  shows "\<not> is_space c" "c \<noteq> CHR ''-''" "c \<noteq> CHR ''+''" "c \<noteq> CHR ''x''" "c \<noteq> CHR ''X''"
  using assms by (auto simp: is_digit_def digit_val_def is_space_def)

lemma parseInt_str_digits:
  assumes "s \<noteq> []" and "\<forall>c \<in> set s. is_digit 10 c"
  shows "parseInt_str s = mk_num (int (digits_value 10 s)) 0"
proof -
  obtain c t where s: "s = c # t" using assms(1) by (cases s) auto
  have c: "is_digit 10 c" using assms(2) s by simp
  have trim: "trimStart s = s"
    using digit_chars(1) [OF c] by (simp add: trimStart_def s)
  have nohex: "take 2 s \<noteq> ''0x''" "take 2 s \<noteq> ''0X''"
  proof -
    show "take 2 s \<noteq> ''0x''"
    proof (cases t)
      case Nil
      then show ?thesis by (simp add: s)
    next
      case (Cons d u)
      then have "is_digit 10 d" using assms(2) s by simp
      then show ?thesis using digit_chars(4) [of d] by (auto simp: s Cons)
    qed
    show "take 2 s \<noteq> ''0X''"
    proof (cases t)
      case Nil
      then show ?thesis by (simp add: s)
    next
      case (Cons d u)
      then have "is_digit 10 d" using assms(2) s by simp
      then show ?thesis using digit_chars(5) [of d] by (auto simp: s Cons)
    qed
  qed
  have all: "takeWhile (is_digit 10) s = s"
    using assms(2) by (simp add: takeWhile_eq_all_conv)
  have hd: "hd s \<noteq> CHR ''-''" "hd s \<noteq> CHR ''+''"
    using digit_chars(2,3) [OF c] by (simp_all add: s)
  show ?thesis
    using assms(1) by (simp add: parseInt_str_def Let_def trim nohex all hd)
qed

lemma parseInt_integer:
  assumes "0 < n" and "n < 10 ^ 21"
  shows "parseInt (JNum (mk_num n 0)) = mk_num n 0"
proof -
  obtain m k where mk: "mk_num n 0 = Finite m (int k)" "0 < m" "n = m * 10 ^ k"
    using mk_num_integer [OF assms(1)] by blast
  let ?ds = "show_nat (nat \<bar>m\<bar>)"
  have m: "nat \<bar>m\<bar> = nat m" "0 < nat m" using mk(2) by simp_all
  have "10 ^ (length ?ds - 1) \<le> nat m"
    using show_nat_length [OF m(2)] by (simp add: m(1))
  then have "(10::int) ^ (length ?ds - 1) \<le> m"
    using mk(2) by (metis int_nat_eq less_imp_le of_nat_le_iff of_nat_numeral of_nat_power)
  then have "(10::int) ^ (length ?ds - 1) * 10 ^ k \<le> m * 10 ^ k"
    by (intro mult_right_mono) simp_all
  moreover have "(10::int) ^ (length ?ds - 1 + k) = 10 ^ (length ?ds - 1) * 10 ^ k"
    by (simp add: power_add)
  ultimately have "(10::int) ^ (length ?ds - 1 + k) \<le> n"
    using mk(3) by simp
  then have "(10::int) ^ (length ?ds - 1 + k) < 10 ^ 21"
    using assms(2) by (rule le_less_trans)
  then have "length ?ds - 1 + k < 21"
    by (rule power_less_imp_less_exp [rotated]) simp
  then have len: "int (length ?ds) + int k \<le> 21"
    using show_nat_nonempty [of "nat \<bar>m\<bar>"] by (cases ?ds) simp_all
  have str: "num_toString (Finite m (int k)) = ?ds @ replicate k CHR ''0''"
    using mk(2) len by (simp add: num_toString_def Let_def)
  have digits: "\<forall>c \<in> set (?ds @ replicate k CHR ''0''). is_digit 10 c"
    using show_nat_digits [of "nat \<bar>m\<bar>"] zero_char_value(2) by auto
  have ne: "?ds @ replicate k CHR ''0'' \<noteq> []"
    using show_nat_nonempty [of "nat \<bar>m\<bar>"] by simp
  have "int (digits_value 10 (?ds @ replicate k CHR ''0'')) = n"
    using mk(2,3) by (simp add: digits_value_zeros show_nat_value m(1))
  then have "parseInt_str (?ds @ replicate k CHR ''0'') = mk_num n 0"
    using parseInt_str_digits [OF ne digits] by simp
  then show ?thesis
    by (simp add: parseInt_def ToString_def mk(1) str)
qed

section \<open>Properties of the gateway client\<close>

lemma catch_new_Error: "catch_error stringify (new_Error msg) = ''Request setup error: '' @ msg"
  by (simp add: catch_error_def new_Error_def)

lemma validate_required_find:
  "validate_required pd fs =
     map_option (\<lambda>f. ''Missing required field: '' @ f) (List.find (\<lambda>f. \<not> truthy (get_prop pd f)) fs)"
  by (induction fs) simp_all

lemma requestToPay_invalid:
  assumes "List.find (\<lambda>f. \<not> truthy (get_prop pd f)) requiredFields = Some g"
  shows "requestToPay stringify now upstream pd =
    (Inl (''Request setup error: Missing required field: '' @ g), [])"
  using assms by (simp add: requestToPay_def validate_required_find catch_new_Error)

lemma find_first:
  assumes "f \<in> set fs" "P f" "\<forall>g \<in> set (takeWhile (\<lambda>g. g \<noteq> f) fs). \<not> P g"
  shows "List.find P fs = Some f"
  using assms by (induction fs) auto

lemma get_prop_absent: "\<not> has_prop pd f \<Longrightarrow> get_prop pd f = JUndefined"
  by (simp add: has_prop_def get_prop_def)

lemma validate_required_cong:
  assumes "\<forall>f \<in> set fs. truthy (get_prop a f) = truthy (get_prop b f)"
  shows "validate_required a fs = validate_required b fs"
  using assms by (induction fs) simp_all

lemma get_prop_set: "get_prop (set_prop pd k v) f = (if f = k then v else get_prop pd f)"
  by (simp add: get_prop_def set_prop_def update_conv')

lemma get_prop_delete: "get_prop (AList.delete k pd) f = (if f = k then JUndefined else get_prop pd f)"
  by (simp add: get_prop_def delete_conv')

lemma example_valid: "\<forall>f \<in> set requiredFields. truthy (get_prop example_paymentData f)"
  by (simp add: requiredFields_def example_paymentData_def get_prop_def truthy_def num_truthy_def)

lemma example_key: "is_string (get_prop example_paymentData ''merchantSecretKey'')"
  by (simp add: example_paymentData_def get_prop_def is_string_def)

lemma validate_required_ok:
  "(\<forall>f \<in> set fs. truthy (get_prop pd f)) \<Longrightarrow> validate_required pd fs = None"
  by (induction fs) simp_all

lemma generateSecureHash_ok:
  "is_string k \<Longrightarrow> \<exists>h. generateSecureHash t m term k = Inr h"
  by (cases k) (simp_all add: generateSecureHash_def Buffer_from_hex_def is_string_def)

lemma requestToPay_valid:
  assumes "\<forall>f \<in> set requiredFields. truthy (get_prop pd f)"
      and "is_string (get_prop pd ''merchantSecretKey'')"
  shows "\<exists>h. generateSecureHash (JStr (generateTransactionDateTime now)) (get_prop pd ''merchantId'')
             (get_prop pd ''terminalId'') (get_prop pd ''merchantSecretKey'') = Inr h
    \<and> requestToPay stringify now upstream pd =
       (case axios_post validateStatus upstream of
          Inl error \<Rightarrow> Inl (catch_error stringify error)
        | Inr (status, d) \<Rightarrow> Inr d,
        [Post (requestPayload_of pd (generateTransactionDateTime now) h)])"
proof -
  obtain h where h: "generateSecureHash (JStr (generateTransactionDateTime now))
      (get_prop pd ''merchantId'') (get_prop pd ''terminalId'') (get_prop pd ''merchantSecretKey'') = Inr h"
    using generateSecureHash_ok [OF assms(2)] by blast
  have "requestToPay stringify now upstream pd =
       (case axios_post validateStatus upstream of
          Inl error \<Rightarrow> Inl (catch_error stringify error)
        | Inr (status, d) \<Rightarrow> Inr d,
        [Post (requestPayload_of pd (generateTransactionDateTime now) h)])"
    using h validate_required_ok [OF assms(1)]
    by (simp add: requestToPay_def split: sum.splits prod.splits)
  with h show ?thesis by blast
qed

lemma axios_post_accepted:
  "status < 500 \<Longrightarrow> axios_post validateStatus (HttpResponse status d) = Inr (status, d)"
  by (simp add: axios_post_def validateStatus_def)

lemma attempts_response:
  "n \<le> maxRetries \<Longrightarrow> status < 500 \<Longrightarrow> upstream n = HttpResponse status d \<Longrightarrow>
     attempts upstream p lastError n = (Inr d, [Post p])"
  by (subst attempts.simps) (simp add: axios_post_accepted)

lemma attempts_first_response:
  assumes "status < 500" and "upstream 1 = HttpResponse status d"
  shows "attempts upstream p None 1 = (Inr d, [Post p])"
proof -
  have "(1::nat) \<le> maxRetries" by (simp add: maxRetries_def)
  then show ?thesis using assms by (rule attempts_response)
qed

lemma requestToPay_retry_valid:
  assumes "\<forall>f \<in> set requiredFields. truthy (get_prop pd f)"
      and "is_string (get_prop pd ''merchantSecretKey'')"
  shows "\<exists>h. generateSecureHash (JStr (generateTransactionDateTime now)) (get_prop pd ''merchantId'')
             (get_prop pd ''terminalId'') (get_prop pd ''merchantSecretKey'') = Inr h
    \<and> requestToPay_retry stringify url now upstream pd =
       (case fst (attempts upstream (requestPayload_of pd (generateTransactionDateTime now) h) None 1) of
          Inl thrown \<Rightarrow> Inl (catch_error_retry stringify url thrown)
        | Inr d \<Rightarrow> Inr d,
        snd (attempts upstream (requestPayload_of pd (generateTransactionDateTime now) h) None 1))"
proof -
  obtain h where h: "generateSecureHash (JStr (generateTransactionDateTime now))
      (get_prop pd ''merchantId'') (get_prop pd ''terminalId'') (get_prop pd ''merchantSecretKey'') = Inr h"
    using generateSecureHash_ok [OF assms(2)] by blast
  have "requestToPay_retry stringify url now upstream pd =
       (case fst (attempts upstream (requestPayload_of pd (generateTransactionDateTime now) h) None 1) of
          Inl thrown \<Rightarrow> Inl (catch_error_retry stringify url thrown)
        | Inr d \<Rightarrow> Inr d,
        snd (attempts upstream (requestPayload_of pd (generateTransactionDateTime now) h) None 1))"
    using h validate_required_ok [OF assms(1)]
    by (simp add: requestToPay_retry_def split: sum.splits prod.splits)
  with h show ?thesis by blast
qed

text \<open>
  C5, as stated, fails: in the request below \<open>currency\<close> is the one required field that is
  absent, \<open>amountTrxn\<close> is present with the value 0, and the message names \<open>amountTrxn\<close>, not
  \<open>currency\<close>.
\<close>

theorem first_missing_field_counterexample:
  "''currency'' \<in> set requiredFields
   \<and> filter (\<lambda>f. \<not> has_prop
          (AList.delete ''currency'' (set_prop example_paymentData ''amountTrxn'' (JNum (Finite 0 0)))) f)
        requiredFields = [''currency'']
   \<and> requestToPay (\<lambda>d. d) example_date (HttpResponse 200 ''{}'')
        (AList.delete ''currency'' (set_prop example_paymentData ''amountTrxn'' (JNum (Finite 0 0)))) =
       (Inl ''Request setup error: Missing required field: amountTrxn'', [])
   \<and> \<not> str_includes ''Request setup error: Missing required field: amountTrxn'' ''currency''"
proof -
  let ?pd = "AList.delete ''currency'' (set_prop example_paymentData ''amountTrxn'' (JNum (Finite 0 0)))"
  have "List.find (\<lambda>f. \<not> truthy (get_prop ?pd f)) requiredFields = Some ''amountTrxn''"
    by (simp add: requiredFields_def example_paymentData_def set_prop_def get_prop_def truthy_def
        num_truthy_def)
  then have "requestToPay (\<lambda>d. d) example_date (HttpResponse 200 ''{}'') ?pd =
      (Inl (''Request setup error: Missing required field: '' @ ''amountTrxn''), [])"
    by (rule requestToPay_invalid)
  moreover have "filter (\<lambda>f. \<not> has_prop ?pd f) requiredFields = [''currency'']"
    by (simp add: requiredFields_def example_paymentData_def set_prop_def has_prop_def)
  moreover have "\<not> str_includes ''Request setup error: Missing required field: amountTrxn'' ''currency''"
    by simp
  ultimately show ?thesis by (simp add: requiredFields_def)
qed

text \<open>
  C5, amended. When a required field is absent, \<open>requestToPay\<close> rejects with the message
  \<open>Missing required field: g\<close> (behind the prefix the outer handler puts before every error
  raised ahead of the call), where \<open>g\<close> is the first required field, in the order of the code,
  that is absent or falsy; that is the absent field itself whenever the fields before it are
  present and truthy. Nothing has been sent: the list of events is empty.
\<close>

theorem missing_required_field_rejected:
  assumes "field \<in> set requiredFields" and "\<not> has_prop paymentData field"
  shows "\<exists>g. List.find (\<lambda>f. \<not> truthy (get_prop paymentData f)) requiredFields = Some g
    \<and> requestToPay stringify now upstream paymentData =
        (Inl (''Request setup error: Missing required field: '' @ g), [])
    \<and> ((\<forall>f \<in> set (takeWhile (\<lambda>f. f \<noteq> field) requiredFields). truthy (get_prop paymentData f))
         \<longrightarrow> g = field)"
proof -
  let ?P = "\<lambda>f. \<not> truthy (get_prop paymentData f)"
  have falsy: "?P field"
    using assms(2) by (simp add: get_prop_absent truthy_def)
  with assms(1) obtain g where g: "List.find ?P requiredFields = Some g"
    by (cases "List.find ?P requiredFields") (auto simp: find_None_iff)
  have "g = field" if "\<forall>f \<in> set (takeWhile (\<lambda>f. f \<noteq> field) requiredFields). truthy (get_prop paymentData f)"
    using find_first [of field requiredFields ?P] assms(1) falsy that g by simp
  with g requestToPay_invalid [OF g] show ?thesis by blast
qed

theorem missing_required_field_rejected_witness:
  "''currency'' \<in> set requiredFields
   \<and> \<not> has_prop (AList.delete ''currency'' example_paymentData) ''currency''
   \<and> requestToPay (\<lambda>d. d) example_date (HttpResponse 200 ''{}'')
        (AList.delete ''currency'' example_paymentData) =
       (Inl ''Request setup error: Missing required field: currency'', [])"
proof -
  let ?pd = "AList.delete ''currency'' example_paymentData"
  have 1: "''currency'' \<in> set requiredFields" by (simp add: requiredFields_def)
  have 2: "\<not> has_prop ?pd ''currency''"
    by (simp add: has_prop_def example_paymentData_def)
  have 3: "List.find (\<lambda>f. \<not> truthy (get_prop ?pd f)) requiredFields = Some ''currency''"
    by (simp add: requiredFields_def example_paymentData_def get_prop_def truthy_def num_truthy_def)
  from missing_required_field_rejected [OF 1 2, of "\<lambda>d. d" example_date "HttpResponse 200 ''{}''"] 3
  show ?thesis using 1 2 by auto
qed

text \<open>
  C7. On a request that passes validation and signing, an upstream response with a status
  below 500 makes \<open>requestToPay\<close> resolve with the response data as received, whatever the
  data say; so does the revision with retries when the first attempt meets such a response.
\<close>

theorem response_below_500_returned:
  assumes "\<forall>f \<in> set requiredFields. truthy (get_prop paymentData f)"
      and "is_string (get_prop paymentData ''merchantSecretKey'')"
      and "status < 500"
  shows "fst (requestToPay stringify now (HttpResponse status d) paymentData) = Inr d
    \<and> (upstream 1 = HttpResponse status d \<longrightarrow>
         fst (requestToPay_retry stringify url now upstream paymentData) = Inr d)"
proof -
  from requestToPay_valid [OF assms(1,2), of now stringify "HttpResponse status d"]
  have "fst (requestToPay stringify now (HttpResponse status d) paymentData) = Inr d"
    using assms(3) by (auto simp: axios_post_accepted)
  moreover have "fst (requestToPay_retry stringify url now upstream paymentData) = Inr d"
    if "upstream 1 = HttpResponse status d"
    using requestToPay_retry_valid [OF assms(1,2), of now stringify url upstream]
      attempts_first_response [of status upstream d, OF assms(3) that]
    by auto
  ultimately show ?thesis by blast
qed

theorem response_below_500_returned_witness:
  "list_all (\<lambda>f. truthy (get_prop example_paymentData f)) requiredFields
   \<and> is_string (get_prop example_paymentData ''merchantSecretKey'')
   \<and> (404 :: nat) < 500
   \<and> fst (requestToPay (\<lambda>d. d) example_date (HttpResponse 404 ''{Success: false}'')
        example_paymentData) = Inr ''{Success: false}''
   \<and> fst (requestToPay_retry (\<lambda>d. d) ''https://upg'' example_date
        (\<lambda>n. HttpResponse 404 ''{Success: false}'') example_paymentData) = Inr ''{Success: false}''"
  using response_below_500_returned [OF example_valid example_key, of 404 "\<lambda>d. d" example_date
      "''{Success: false}''" "\<lambda>n. HttpResponse 404 ''{Success: false}''" "''https://upg''"]
    example_valid example_key
  by (simp add: list_all_iff)

text \<open>
  C10. A required field that is present with a falsy value is rejected exactly as if it were
  absent: the two runs are equal, and both end in a \<open>Missing required field\<close> error with
  nothing sent.
\<close>

theorem falsy_required_field_as_absent:
  assumes "field \<in> set requiredFields" and "\<not> truthy v"
  shows "requestToPay stringify now upstream (set_prop paymentData field v) =
      requestToPay stringify now upstream (AList.delete field paymentData)
    \<and> (\<exists>g. requestToPay stringify now upstream (set_prop paymentData field v) =
          (Inl (''Request setup error: Missing required field: '' @ g), []))"
proof -
  let ?a = "set_prop paymentData field v" and ?b = "AList.delete field paymentData"
  have "\<forall>f \<in> set requiredFields. truthy (get_prop ?a f) = truthy (get_prop ?b f)"
    using assms(2) by (simp add: get_prop_set get_prop_delete truthy_def)
  then have same: "validate_required ?a requiredFields = validate_required ?b requiredFields"
    by (rule validate_required_cong)
  have "\<not> truthy (get_prop ?a field)"
    using assms(2) by (simp add: get_prop_set)
  with assms(1) obtain g where g: "List.find (\<lambda>f. \<not> truthy (get_prop ?a f)) requiredFields = Some g"
    by (cases "List.find (\<lambda>f. \<not> truthy (get_prop ?a f)) requiredFields") (auto simp: find_None_iff)
  then have a: "requestToPay stringify now upstream ?a =
      (Inl (''Request setup error: Missing required field: '' @ g), [])"
    by (rule requestToPay_invalid)
  from g have "validate_required ?a requiredFields = Some (''Missing required field: '' @ g)"
    by (simp add: validate_required_find)
  with same have "validate_required ?b requiredFields = Some (''Missing required field: '' @ g)"
    by simp
  then have "requestToPay stringify now upstream ?b =
      (Inl (''Request setup error: Missing required field: '' @ g), [])"
    by (simp add: requestToPay_def catch_new_Error)
  with a show ?thesis by simp
qed

theorem falsy_required_field_as_absent_witness:
  "''amountTrxn'' \<in> set requiredFields \<and> \<not> truthy (JNum (Finite 0 0))
   \<and> requestToPay (\<lambda>d. d) example_date (HttpResponse 200 ''{}'')
        (set_prop example_paymentData ''amountTrxn'' (JNum (Finite 0 0))) =
      requestToPay (\<lambda>d. d) example_date (HttpResponse 200 ''{}'')
        (AList.delete ''amountTrxn'' example_paymentData)
   \<and> requestToPay (\<lambda>d. d) example_date (HttpResponse 200 ''{}'')
        (AList.delete ''amountTrxn'' example_paymentData) =
       (Inl ''Request setup error: Missing required field: amountTrxn'', [])"
proof -
  have 1: "''amountTrxn'' \<in> set requiredFields" by (simp add: requiredFields_def)
  have 2: "\<not> truthy (JNum (Finite 0 0))" by (simp add: truthy_def num_truthy_def)
  have 3: "List.find (\<lambda>f. \<not> truthy (get_prop (AList.delete ''amountTrxn'' example_paymentData) f))
      requiredFields = Some ''amountTrxn''"
    by (simp add: requiredFields_def example_paymentData_def get_prop_def truthy_def)
  from falsy_required_field_as_absent [OF 1 2, of "\<lambda>d. d" example_date "HttpResponse 200 ''{}''"
      example_paymentData] requestToPay_invalid [OF 3, of "\<lambda>d. d" example_date "HttpResponse 200 ''{}''"]
  show ?thesis using 1 2 by simp
qed

section \<open>Properties of the retry loop\<close>

lemma digit_char_not_t: "d < 10 \<Longrightarrow> digit_char d \<noteq> CHR ''t''"
proof -
  assume "d < 10"
  then have "d < length ''0123456789''" by simp
  then have "''0123456789'' ! d \<in> set ''0123456789''" by (rule nth_mem)
  moreover have "''0123456789abcdef'' ! d = ''0123456789'' ! d"
    using \<open>d < 10\<close> nth_append [of "''0123456789''" "''abcdef''" d] by simp
  ultimately show ?thesis by (auto simp: digit_char_def)
qed

lemma show_nat_no_t: "CHR ''t'' \<notin> set (show_nat n)"
proof (induction n rule: show_nat.induct)
  case (1 n)
  show ?case
  proof (cases "n < 10")
    case True
    then show ?thesis
      using digit_char_not_t [of n] by (subst show_nat.simps) auto
  next
    case False
    then have "CHR ''t'' \<notin> set (show_nat (n div 10))" using 1 by simp
    moreover have "digit_char (n mod 10) \<noteq> CHR ''t''" by (rule digit_char_not_t) simp
    ultimately show ?thesis using False by (subst show_nat.simps) auto
  qed
qed

lemma no_t_no_timeout: "CHR ''t'' \<notin> set s \<Longrightarrow> \<not> str_includes s ''timeout''"
  by (induction s) auto

lemma retryable_axios:
  "axios_post validateStatus out = Inl error \<Longrightarrow> retryable error = retry_class out"
  by (cases out)
    (auto simp: axios_post_def retryable_def retry_class_def
      no_t_no_timeout [OF show_nat_no_t] split: if_splits)

lemma count_posts_simps [simp]:
  "count_posts [] = 0"
  "count_posts (Post p # tr) = Suc (count_posts tr)"
  "count_posts (Sleep d # tr) = count_posts tr"
  by (simp_all add: count_posts_def wire_payloads_def)

lemma attempts_posts_positive:
  "attempt \<le> maxRetries \<Longrightarrow> 0 < count_posts (snd (attempts upstream p lastError attempt))"
  by (subst attempts.simps) (simp add: Let_def split: sum.splits prod.splits)

lemma attempts_shape:
  "snd (attempts upstream p lastError a) =
      backoff_trace p a (count_posts (snd (attempts upstream p lastError a)))
   \<and> (a \<le> maxRetries + 1 \<longrightarrow> a + count_posts (snd (attempts upstream p lastError a)) \<le> maxRetries + 1)
   \<and> (\<forall>i. a \<le> i \<and> Suc i < a + count_posts (snd (attempts upstream p lastError a))
         \<longrightarrow> retry_class (upstream i))
   \<and> (\<forall>i status d. a \<le> i \<and> i < a + count_posts (snd (attempts upstream p lastError a))
         \<and> upstream i = HttpResponse status d
         \<longrightarrow> Suc i = a + count_posts (snd (attempts upstream p lastError a)))"
proof (induction upstream p lastError a rule: attempts.induct)
  case (1 upstream p lastError a)
  let ?tr = "snd (attempts upstream p lastError a)"
  have single: ?case if tr: "?tr = [Post p]" and le: "a \<le> maxRetries"
  proof -
    have n: "count_posts ?tr = 1" by (simp add: tr)
    have "?tr = backoff_trace p a (count_posts ?tr)" by (simp add: n) (simp add: tr)
    moreover have "a \<le> maxRetries + 1 \<longrightarrow> a + count_posts ?tr \<le> maxRetries + 1"
      using le by (simp add: n)
    moreover have "\<forall>i. a \<le> i \<and> Suc i < a + count_posts ?tr \<longrightarrow> retry_class (upstream i)"
      by (auto simp: n)
    moreover have "\<forall>i status d. a \<le> i \<and> i < a + count_posts ?tr
         \<and> upstream i = HttpResponse status d \<longrightarrow> Suc i = a + count_posts ?tr"
      by (auto simp: n)
    ultimately show ?thesis by (intro conjI)
  qed
  show ?case
  proof (cases "a \<le> maxRetries")
    case False
    then have "attempts upstream p lastError a = (Inl lastError, [])"
      by (subst attempts.simps) simp
    then have tr: "?tr = []" by simp
    have "?tr = backoff_trace p a (count_posts ?tr)" by (simp add: tr)
    moreover have "a \<le> maxRetries + 1 \<longrightarrow> a + count_posts ?tr \<le> maxRetries + 1"
      by (simp add: tr)
    moreover have "\<forall>i. a \<le> i \<and> Suc i < a + count_posts ?tr \<longrightarrow> retry_class (upstream i)"
      by (auto simp: tr)
    moreover have "\<forall>i status d. a \<le> i \<and> i < a + count_posts ?tr
         \<and> upstream i = HttpResponse status d \<longrightarrow> Suc i = a + count_posts ?tr"
      by (auto simp: tr)
    ultimately show ?thesis by (intro conjI)
  next
    case le: True
    show ?thesis
    proof (cases "axios_post validateStatus (upstream a)")
      case (Inr sd)
      then have "attempts upstream p lastError a = (Inr (snd sd), [Post p])"
        using le by (subst attempts.simps) (simp split: prod.splits)
      then have "?tr = [Post p]" by simp
      then show ?thesis using le by (rule single)
    next
      case (Inl error)
      show ?thesis
      proof (cases "a < maxRetries \<and> retryable error")
        case False
        then have "attempts upstream p lastError a = (Inl (Some error), [Post p])"
          using le Inl by (subst attempts.simps) auto
        then have "?tr = [Post p]" by simp
        then show ?thesis using le by (rule single)
      next
        case True
        let ?rest = "snd (attempts upstream p (Some error) (a + 1))"
        let ?n = "count_posts ?rest"
        have eq: "?tr = Post p # Sleep (a * 3000) # ?rest"
          using le Inl True by (subst attempts.simps) (simp add: Let_def)
        have n: "count_posts ?tr = Suc ?n" by (simp add: eq)
        note ih = "1.IH" [OF le Inl True refl]
        have ih1: "?rest = backoff_trace p (a + 1) ?n"
          using ih by (rule conjunct1)
        have ih2: "a + 1 + ?n \<le> maxRetries + 1"
          using ih [THEN conjunct2, THEN conjunct1] True by simp
        have ih3: "retry_class (upstream i)" if "a + 1 \<le> i" "Suc i < a + 1 + ?n" for i
          using ih [THEN conjunct2, THEN conjunct2, THEN conjunct1] that by blast
        have ih4: "Suc i = a + 1 + ?n"
          if "a + 1 \<le> i" "i < a + 1 + ?n" "upstream i = HttpResponse status d" for i status d
          using ih [THEN conjunct2, THEN conjunct2, THEN conjunct2] that by blast
        have "a + 1 \<le> maxRetries" using True by simp
        then have pos: "0 < ?n" by (rule attempts_posts_positive)
        then obtain m where m: "?n = Suc m" by (cases ?n) simp_all
        have rc: "retry_class (upstream a)"
          using True retryable_axios [OF Inl] by simp
        have "backoff_trace p a (Suc (Suc m)) = Post p # Sleep (a * 3000) # backoff_trace p (Suc a) (Suc m)"
          by simp
        with ih1 m have shape: "?tr = backoff_trace p a (count_posts ?tr)"
          by (simp only: n eq) simp
        have bound: "a \<le> maxRetries + 1 \<longrightarrow> a + count_posts ?tr \<le> maxRetries + 1"
          using ih2 by (simp add: n)
        have only: "\<forall>i. a \<le> i \<and> Suc i < a + count_posts ?tr \<longrightarrow> retry_class (upstream i)"
        proof (intro allI impI)
          fix i assume i: "a \<le> i \<and> Suc i < a + count_posts ?tr"
          show "retry_class (upstream i)"
          proof (cases "i = a")
            case True
            with rc show ?thesis by simp
          next
            case False
            with i have "a + 1 \<le> i" "Suc i < a + 1 + ?n" by (simp_all add: n)
            then show ?thesis by (rule ih3)
          qed
        qed
        have stop: "\<forall>i status d. a \<le> i \<and> i < a + count_posts ?tr
           \<and> upstream i = HttpResponse status d \<longrightarrow> Suc i = a + count_posts ?tr"
        proof (intro allI impI)
          fix i status d
          assume i: "a \<le> i \<and> i < a + count_posts ?tr \<and> upstream i = HttpResponse status d"
          show "Suc i = a + count_posts ?tr"
          proof (cases "i = a")
            case True
            with i rc show ?thesis by (simp add: retry_class_def)
          next
            case False
            with i have "a + 1 \<le> i" "i < a + 1 + ?n" "upstream i = HttpResponse status d"
              by (simp_all add: n)
            then have "Suc i = a + 1 + ?n" by (rule ih4)
            then show ?thesis by (simp add: n)
          qed
        qed
        from shape bound only stop show ?thesis by (intro conjI)
      qed
    qed
  qed
qed

lemma requestToPay_retry_trace:
  "snd (requestToPay_retry stringify url now upstream paymentData) = []
   \<or> (\<exists>p. snd (requestToPay_retry stringify url now upstream paymentData) =
          snd (attempts upstream p None 1))"
proof (cases "validate_required paymentData requiredFields")
  case (Some msg)
  then show ?thesis by (simp add: requestToPay_retry_def)
next
  case None
  show ?thesis
  proof (cases "generateSecureHash (JStr (generateTransactionDateTime now))
      (get_prop paymentData ''merchantId'') (get_prop paymentData ''terminalId'')
      (get_prop paymentData ''merchantSecretKey'')")
    case (Inl msg)
    with None show ?thesis by (simp add: requestToPay_retry_def)
  next
    case (Inr h)
    let ?p = "requestPayload_of paymentData (generateTransactionDateTime now) h"
    have "snd (requestToPay_retry stringify url now upstream paymentData) =
        snd (attempts upstream ?p None 1)"
      using None Inr by (simp add: requestToPay_retry_def split: sum.splits prod.splits)
    then show ?thesis by blast
  qed
qed

text \<open>
  C6. The revision with retries makes at most three attempts. Its events are the attempts
  with a sleep of \<open>3000 * k\<close> milliseconds after the \<open>k\<close>-th one (3000, then 6000). An
  attempt is followed by another only when it failed, without a response, with the code
  \<open>ECONNABORTED\<close>, \<open>ETIMEDOUT\<close> or \<open>ECONNRESET\<close> or with a message containing \<open>timeout\<close>; an
  attempt that met a response of any status is the last one.
\<close>

theorem retry_policy:
  "count_posts (snd (requestToPay_retry stringify url now upstream paymentData)) \<le> 3
   \<and> (\<exists>p. snd (requestToPay_retry stringify url now upstream paymentData) =
         backoff_trace p 1 (count_posts (snd (requestToPay_retry stringify url now upstream paymentData))))
   \<and> (\<forall>i. 1 \<le> i \<and> Suc i \<le> count_posts (snd (requestToPay_retry stringify url now upstream paymentData))
         \<longrightarrow> retry_class (upstream i))
   \<and> (\<forall>i status d. 1 \<le> i
         \<and> i \<le> count_posts (snd (requestToPay_retry stringify url now upstream paymentData))
         \<and> upstream i = HttpResponse status d
         \<longrightarrow> i = count_posts (snd (requestToPay_retry stringify url now upstream paymentData)))"
proof -
  let ?tr = "snd (requestToPay_retry stringify url now upstream paymentData)"
  consider "?tr = []" | p where "?tr = snd (attempts upstream p None 1)"
    using requestToPay_retry_trace [of stringify url now upstream paymentData] by blast
  then show ?thesis
  proof cases
    case 1
    then show ?thesis by simp
  next
    case 2
    have "(1::nat) \<le> maxRetries + 1" by simp
    with attempts_shape [of upstream p None 1] 2 show ?thesis
      by (auto simp: maxRetries_def)
  qed
qed

lemma example_attempts:
  "attempts example_upstream p None (Suc 0) =
     (Inr ''ok'', [Post p, Sleep 3000, Post p, Sleep 6000, Post p])"
proof -
  have a3: "attempts example_upstream p lastError (Suc (Suc (Suc 0))) = (Inr ''ok'', [Post p])" for lastError
    by (subst attempts.simps)
      (simp add: maxRetries_def axios_post_def validateStatus_def example_upstream_def)
  have a2: "attempts example_upstream p lastError (Suc (Suc 0)) = (Inr ''ok'', [Post p, Sleep 6000, Post p])"
    for lastError
    by (subst attempts.simps)
      (simp add: maxRetries_def axios_post_def validateStatus_def example_upstream_def
        retryable_def a3)
  show ?thesis
    by (subst attempts.simps)
      (simp add: maxRetries_def axios_post_def validateStatus_def example_upstream_def
        retryable_def a2)
qed

lemma example_retry_run:
  "fst (requestToPay_retry (\<lambda>d. d) ''https://upg'' example_date example_upstream example_paymentData)
     = Inr ''ok''
   \<and> count_posts (snd (requestToPay_retry (\<lambda>d. d) ''https://upg'' example_date example_upstream
        example_paymentData)) = 3
   \<and> delays (snd (requestToPay_retry (\<lambda>d. d) ''https://upg'' example_date example_upstream
        example_paymentData)) = [3000, 6000]"
  using requestToPay_retry_valid [OF example_valid example_key, of example_date "\<lambda>d. d"
      "''https://upg''" example_upstream]
  by (auto simp: example_attempts delays_def)

theorem retry_policy_witness:
  "fst (requestToPay_retry (\<lambda>d. d) ''https://upg'' example_date example_upstream example_paymentData)
     = Inr ''ok''
   \<and> count_posts (snd (requestToPay_retry (\<lambda>d. d) ''https://upg'' example_date example_upstream
        example_paymentData)) = 3
   \<and> delays (snd (requestToPay_retry (\<lambda>d. d) ''https://upg'' example_date example_upstream
        example_paymentData)) = [3000, 6000]
   \<and> retry_class (example_upstream 1) \<and> retry_class (example_upstream 2)"
proof -
  let ?tr = "snd (requestToPay_retry (\<lambda>d. d) ''https://upg'' example_date example_upstream
      example_paymentData)"
  have n: "count_posts ?tr = 3" using example_retry_run by simp
  have "\<forall>i. 1 \<le> i \<and> Suc i \<le> count_posts ?tr \<longrightarrow> retry_class (example_upstream i)"
    using retry_policy [of "\<lambda>d. d" "''https://upg''" example_date example_upstream
        example_paymentData]
    by (elim conjE)
  then have "retry_class (example_upstream 1)" "retry_class (example_upstream 2)"
    by (simp_all add: n)
  with example_retry_run show ?thesis by simp
qed

section \<open>Properties of the error mapping\<close>

















section \<open>Properties of the payload and of the endpoint\<close>

lemma has_prop_set: "has_prop (set_prop ob k v) f = (f = k \<or> has_prop ob f)"
  by (auto simp: has_prop_def set_prop_def update_conv')

lemma has_prop_if_set:
  "has_prop (if c then set_prop ob k v else ob) f = ((c \<and> f = k) \<or> has_prop ob f)"
  by (simp add: has_prop_set)

lemma get_prop_if_set:
  "get_prop (if c then set_prop ob k v else ob) f = (if c \<and> f = k then v else get_prop ob f)"
  by (simp add: get_prop_set)

lemma has_prop_Cons: "has_prop ((k, v) # ob) f = (f = k \<or> has_prop ob f)"
  by (auto simp: has_prop_def)

lemma has_prop_Nil: "has_prop [] f = False"
  by (simp add: has_prop_def)

lemma get_prop_Cons: "get_prop ((k, v) # ob) f = (if f = k then v else get_prop ob f)"
  by (simp add: get_prop_def)

lemma get_prop_Nil: "get_prop [] f = JUndefined"
  by (simp add: get_prop_def)

lemma payload_fee_fields:
  "has_prop (requestPayload_of pd dt h) ''ConvenienceFeeFixed'' =
     (truthy (get_prop pd ''convenienceFeeFixed'') \<and> \<not> truthy (get_prop pd ''tip'')
      \<and> \<not> truthy (get_prop pd ''convenienceFeePercentage''))"
  "has_prop (requestPayload_of pd dt h) ''ConvenienceFeePercentage'' =
     (truthy (get_prop pd ''convenienceFeePercentage'') \<and> \<not> truthy (get_prop pd ''tip'')
      \<and> \<not> truthy (get_prop pd ''convenienceFeeFixed''))"
  by (simp_all only: requestPayload_of_def Let_def has_prop_if_set has_prop_Cons has_prop_Nil)
    simp_all

lemma payload_amount_currency:
  "get_prop (requestPayload_of pd dt h) ''AmountTrxn'' = JNum (parseInt (get_prop pd ''amountTrxn''))"
  "get_prop (requestPayload_of pd dt h) ''Currency'' = JNum (parseInt (get_prop pd ''currency''))"
  by (simp_all only: requestPayload_of_def Let_def get_prop_if_set get_prop_Cons get_prop_Nil)
    simp_all

lemma requestToPay_payloads:
  assumes "p \<in> set (wire_payloads (snd (requestToPay stringify now upstream pd)))"
  shows "\<exists>h. p = requestPayload_of pd (generateTransactionDateTime now) h"
  using assms
  by (auto simp: requestToPay_def wire_payloads_def Let_def
      split: option.splits sum.splits prod.splits)

lemma set_trimmed_get:
  "set_trimmed d name v = Inr d' \<Longrightarrow> k \<noteq> name \<Longrightarrow> get_prop d' k = get_prop d k"
  by (auto simp: set_trimmed_def trim_method_def get_prop_set split: if_splits jsval.splits)

lemma set_trimmed_ok:
  "\<not> truthy v \<or> is_string v \<Longrightarrow> \<exists>d'. set_trimmed d name v = Inr d'"
  by (cases v) (auto simp: set_trimmed_def trim_method_def is_string_def)

lemma paymentData_of_get:
  assumes "paymentData_of CONFIG nowMs body amt = Inr pd"
  shows "\<exists>mobile. trim_method ''mobileNumber'' (get_prop body ''mobileNumber'') = Inr mobile
    \<and> get_prop pd ''amountTrxn'' = JNum amt
    \<and> get_prop pd ''currency'' = JNum (CURRENCY_EGP CONFIG)
    \<and> get_prop pd ''mobileNumber'' = mobile
    \<and> get_prop pd ''merchantId'' = JStr (MERCHANT_ID CONFIG)
    \<and> get_prop pd ''terminalId'' = JStr (TERMINAL_ID CONFIG)
    \<and> get_prop pd ''merchantSecretKey'' = JStr (MERCHANT_SECRET_KEY CONFIG)
    \<and> get_prop pd ''merchantReference'' =
        js_or (get_prop body ''merchantReference'') (JStr (''REF_'' @ show_nat nowMs))
    \<and> get_prop pd ''tip'' = (if get_prop body ''tip'' = JStr ''true'' then JBool True else JUndefined)
    \<and> get_prop pd ''convenienceFeeFixed'' =
        (if truthy (get_prop body ''convenienceFeeFixed'') \<and> \<not> truthy (get_prop body ''tip'')
         then JNum (parseFloat (get_prop body ''convenienceFeeFixed'')) else JUndefined)
    \<and> get_prop pd ''convenienceFeePercentage'' =
        (if truthy (get_prop body ''convenienceFeePercentage'') \<and> \<not> truthy (get_prop body ''tip'')
            \<and> \<not> truthy (get_prop body ''convenienceFeeFixed'')
         then JNum (parseFloat (get_prop body ''convenienceFeePercentage'')) else JUndefined)"
proof -
  let ?init = "\<lambda>mobile. [(''amountTrxn'', JNum amt),
                 (''currency'', JNum (CURRENCY_EGP CONFIG)),
                 (''mobileNumber'', mobile),
                 (''merchantId'', JStr (MERCHANT_ID CONFIG)),
                 (''terminalId'', JStr (TERMINAL_ID CONFIG)),
                 (''merchantSecretKey'', JStr (MERCHANT_SECRET_KEY CONFIG)),
                 (''merchantReference'',
                    js_or (get_prop body ''merchantReference'') (JStr (''REF_'' @ show_nat nowMs))),
                 (''validity'', js_or (get_prop body ''validity'') (JStr (DEFAULT_VALIDITY CONFIG)))]"
  let ?fin = "\<lambda>d4.
     (let d5 = (if get_prop body ''tip'' = JStr ''true'' then set_prop d4 ''tip'' (JBool True) else d4);
          d6 = (if truthy (get_prop body ''convenienceFeeFixed'') \<and> \<not> truthy (get_prop body ''tip'')
                then set_prop d5 ''convenienceFeeFixed''
                       (JNum (parseFloat (get_prop body ''convenienceFeeFixed'')))
                else d5)
      in (if truthy (get_prop body ''convenienceFeePercentage'') \<and> \<not> truthy (get_prop body ''tip'')
             \<and> \<not> truthy (get_prop body ''convenienceFeeFixed'')
          then set_prop d6 ''convenienceFeePercentage''
                 (JNum (parseFloat (get_prop body ''convenienceFeePercentage'')))
          else d6))"
  from assms obtain mobile d1 d2 d3 d4 where
    m: "trim_method ''mobileNumber'' (get_prop body ''mobileNumber'') = Inr mobile" and
    d1: "set_trimmed (?init mobile) ''loyaltyNumber'' (get_prop body ''loyaltyNumber'') = Inr d1" and
    d2: "set_trimmed d1 ''customerLabel'' (get_prop body ''customerLabel'') = Inr d2" and
    d3: "set_trimmed d2 ''purposeOfTransaction'' (get_prop body ''purposeOfTransaction'') = Inr d3" and
    d4: "set_trimmed d3 ''billNumber'' (get_prop body ''billNumber'') = Inr d4" and
    pd: "pd = ?fin d4"
    by (auto simp: paymentData_of_def Let_def split: sum.splits)
  have keep: "get_prop d4 k = get_prop (?init mobile) k" if "other_key k" for k
    using that set_trimmed_get [OF d1, of k] set_trimmed_get [OF d2, of k]
      set_trimmed_get [OF d3, of k] set_trimmed_get [OF d4, of k]
    by (simp add: other_key_def)
  have ok: "other_key ''amountTrxn''" "other_key ''currency''" "other_key ''mobileNumber''"
    "other_key ''merchantId''" "other_key ''terminalId''" "other_key ''merchantSecretKey''"
    "other_key ''merchantReference''" "other_key ''tip''" "other_key ''convenienceFeeFixed''"
    "other_key ''convenienceFeePercentage''"
    by (simp_all add: other_key_def)
  have "get_prop pd ''amountTrxn'' = JNum amt"
    "get_prop pd ''currency'' = JNum (CURRENCY_EGP CONFIG)"
    "get_prop pd ''mobileNumber'' = mobile"
    "get_prop pd ''merchantId'' = JStr (MERCHANT_ID CONFIG)"
    "get_prop pd ''terminalId'' = JStr (TERMINAL_ID CONFIG)"
    "get_prop pd ''merchantSecretKey'' = JStr (MERCHANT_SECRET_KEY CONFIG)"
    "get_prop pd ''merchantReference'' =
        js_or (get_prop body ''merchantReference'') (JStr (''REF_'' @ show_nat nowMs))"
    "get_prop pd ''tip'' = (if get_prop body ''tip'' = JStr ''true'' then JBool True else JUndefined)"
    "get_prop pd ''convenienceFeeFixed'' =
        (if truthy (get_prop body ''convenienceFeeFixed'') \<and> \<not> truthy (get_prop body ''tip'')
         then JNum (parseFloat (get_prop body ''convenienceFeeFixed'')) else JUndefined)"
    "get_prop pd ''convenienceFeePercentage'' =
        (if truthy (get_prop body ''convenienceFeePercentage'') \<and> \<not> truthy (get_prop body ''tip'')
            \<and> \<not> truthy (get_prop body ''convenienceFeeFixed'')
         then JNum (parseFloat (get_prop body ''convenienceFeePercentage'')) else JUndefined)"
    by (simp_all add: pd Let_def get_prop_if_set keep ok get_prop_Cons get_prop_Nil)
  with m show ?thesis by blast
qed

lemma route_payloads:
  assumes "p \<in> set (wire_payloads (snd (request_to_pay_route stringify CONFIG nowMs now upstream body)))"
  shows "\<exists>pd amt. paymentData_of CONFIG nowMs body amt = Inr pd
    \<and> p \<in> set (wire_payloads (snd (requestToPay stringify now upstream pd)))"
proof -
  let ?amt = "Math_round (num_times (parseFloat (get_prop body ''amount'')) (Finite 1 2))"
  show ?thesis
  proof (cases "paymentData_of CONFIG nowMs body ?amt")
    case (Inl e)
    with assms show ?thesis
      by (simp add: request_to_pay_route_def Let_def wire_payloads_def split: if_splits)
  next
    case (Inr pd)
    with assms have "p \<in> set (wire_payloads (snd (requestToPay stringify now upstream pd)))"
      by (cases "requestToPay stringify now upstream pd")
        (auto simp: request_to_pay_route_def Let_def wire_payloads_def
          split: if_splits sum.splits)
    with Inr show ?thesis by blast
  qed
qed

lemma paymentData_of_ok:
  assumes "get_prop body ''mobileNumber'' = JStr mob"
      and "\<forall>f \<in> set trimmed_fields. \<not> truthy (get_prop body f) \<or> is_string (get_prop body f)"
  shows "\<exists>pd. paymentData_of CONFIG nowMs body amt = Inr pd"
proof -
  have opt: "\<not> truthy (get_prop body f) \<or> is_string (get_prop body f)"
    if "f \<in> set trimmed_fields" for f
    using assms(2) that by blast
  let ?init = "[(''amountTrxn'', JNum amt),
                 (''currency'', JNum (CURRENCY_EGP CONFIG)),
                 (''mobileNumber'', JStr (trim mob)),
                 (''merchantId'', JStr (MERCHANT_ID CONFIG)),
                 (''terminalId'', JStr (TERMINAL_ID CONFIG)),
                 (''merchantSecretKey'', JStr (MERCHANT_SECRET_KEY CONFIG)),
                 (''merchantReference'',
                    js_or (get_prop body ''merchantReference'') (JStr (''REF_'' @ show_nat nowMs))),
                 (''validity'', js_or (get_prop body ''validity'') (JStr (DEFAULT_VALIDITY CONFIG)))]"
  have m: "trim_method ''mobileNumber'' (get_prop body ''mobileNumber'') = Inr (JStr (trim mob))"
    by (simp add: assms(1) trim_method_def)
  obtain d1 where d1: "set_trimmed ?init ''loyaltyNumber'' (get_prop body ''loyaltyNumber'') = Inr d1"
    using set_trimmed_ok [OF opt [of "''loyaltyNumber''"]] by (auto simp: trimmed_fields_def)
  obtain d2 where d2: "set_trimmed d1 ''customerLabel'' (get_prop body ''customerLabel'') = Inr d2"
    using set_trimmed_ok [OF opt [of "''customerLabel''"]] by (auto simp: trimmed_fields_def)
  obtain d3 where d3: "set_trimmed d2 ''purposeOfTransaction'' (get_prop body ''purposeOfTransaction'') = Inr d3"
    using set_trimmed_ok [OF opt [of "''purposeOfTransaction''"]] by (auto simp: trimmed_fields_def)
  obtain d4 where d4: "set_trimmed d3 ''billNumber'' (get_prop body ''billNumber'') = Inr d4"
    using set_trimmed_ok [OF opt [of "''billNumber''"]] by (auto simp: trimmed_fields_def)
  show ?thesis
    by (simp only: paymentData_of_def Let_def m sum.case d1 d2 d3 d4) blast
qed

lemma route_run:
  assumes amount: "truthy (get_prop body ''amount'')"
      and amt: "amt = Math_round (num_times (parseFloat (get_prop body ''amount'')) (Finite 1 2))"
        "\<not> num_le_zero amt" "num_truthy amt"
      and mobile: "get_prop body ''mobileNumber'' = JStr mob" "trim mob \<noteq> []"
      and optional: "\<forall>f \<in> set trimmed_fields. \<not> truthy (get_prop body f) \<or> is_string (get_prop body f)"
      and config: "well_formed_config CONFIG"
      and status: "status < 500"
  shows "\<exists>pd h. paymentData_of CONFIG nowMs body amt = Inr pd
    \<and> request_to_pay_route stringify CONFIG nowMs now (HttpResponse status d) body =
        (SuccessReply d (get_prop body ''amount'') (JStr mob) (get_prop pd ''merchantReference''),
         [Post (requestPayload_of pd (generateTransactionDateTime now) h)])"
proof -
  obtain pd where pd: "paymentData_of CONFIG nowMs body amt = Inr pd"
    using paymentData_of_ok [OF mobile(1) optional] by blast
  from paymentData_of_get [OF pd] mobile(1)
  have g: "get_prop pd ''amountTrxn'' = JNum amt"
    "get_prop pd ''currency'' = JNum (CURRENCY_EGP CONFIG)"
    "get_prop pd ''mobileNumber'' = JStr (trim mob)"
    "get_prop pd ''merchantId'' = JStr (MERCHANT_ID CONFIG)"
    "get_prop pd ''terminalId'' = JStr (TERMINAL_ID CONFIG)"
    "get_prop pd ''merchantSecretKey'' = JStr (MERCHANT_SECRET_KEY CONFIG)"
    by (auto simp: trim_method_def)
  have valid: "\<forall>f \<in> set requiredFields. truthy (get_prop pd f)"
    using amt(3) mobile(2) config
    by (simp add: requiredFields_def g truthy_def well_formed_config_def)
  have key: "is_string (get_prop pd ''merchantSecretKey'')"
    by (simp add: g is_string_def)
  obtain h where h: "requestToPay stringify now (HttpResponse status d) pd =
      (Inr d, [Post (requestPayload_of pd (generateTransactionDateTime now) h)])"
    using requestToPay_valid [OF valid key, of now stringify "HttpResponse status d"] status
    by (auto simp: axios_post_accepted)
  have mob: "truthy (get_prop body ''mobileNumber'')"
    using mobile by (auto simp: truthy_def trim_def)
  have "request_to_pay_route stringify CONFIG nowMs now (HttpResponse status d) body =
        (SuccessReply d (get_prop body ''amount'') (JStr mob) (get_prop pd ''merchantReference''),
         [Post (requestPayload_of pd (generateTransactionDateTime now) h)])"
    using amount mob amt(2) pd h
    by (simp add: request_to_pay_route_def Let_def amt(1) [symmetric] mobile(1))
  with pd show ?thesis by blast
qed

lemma amount_example:
  "Math_round (num_times (parseFloat (JStr ''10.50'')) (Finite 1 2)) = Finite 105 1"
  by code_simp

lemma parseInt_examples:
  "parseInt (JNum (Finite 105 1)) = Finite 105 1"
  "parseInt (JNum (Finite 818 0)) = Finite 818 0"
  by code_simp+

lemma parseFloat_examples:
  "parseFloat (JStr ''5'') = Finite 5 0"
  "parseFloat (JStr ''2'') = Finite 2 0"
  by code_simp+

lemma trim_example: "trim ''01012345678'' = ''01012345678''"
  by code_simp

lemma both_fees_valid: "\<forall>f \<in> set requiredFields. truthy (get_prop both_fees_paymentData f)"
  by (simp add: requiredFields_def both_fees_paymentData_def example_paymentData_def get_prop_def
      truthy_def num_truthy_def)

lemma both_fees_key: "is_string (get_prop both_fees_paymentData ''merchantSecretKey'')"
  by (simp add: both_fees_paymentData_def example_paymentData_def get_prop_def is_string_def)

lemma both_fees_props:
  "truthy (get_prop both_fees_paymentData ''convenienceFeeFixed'')"
  "truthy (get_prop both_fees_paymentData ''convenienceFeePercentage'')"
  "\<not> truthy (get_prop both_fees_paymentData ''tip'')"
  by (simp_all add: both_fees_paymentData_def example_paymentData_def get_prop_def truthy_def
      num_truthy_def)

lemma both_fees_run:
  "\<exists>h. wire_payloads (snd (requestToPay (\<lambda>d. d) example_date (HttpResponse 200 ''{}'')
      both_fees_paymentData)) =
    [requestPayload_of both_fees_paymentData (generateTransactionDateTime example_date) h]"
  using requestToPay_valid [OF both_fees_valid both_fees_key, of example_date "\<lambda>d. d"
      "HttpResponse 200 ''{}''"]
  by (auto simp: wire_payloads_def)

text \<open>
  C1, as stated, fails at the gateway client: a \<open>paymentData\<close> with both fees and no tip
  gives a payload without the fixed fee field.
\<close>

theorem both_fees_counterexample:
  "truthy (get_prop both_fees_paymentData ''convenienceFeeFixed'')
   \<and> truthy (get_prop both_fees_paymentData ''convenienceFeePercentage'')
   \<and> \<not> truthy (get_prop both_fees_paymentData ''tip'')
   \<and> map (\<lambda>p. has_prop p ''ConvenienceFeeFixed'')
        (wire_payloads (snd (requestToPay (\<lambda>d. d) example_date (HttpResponse 200 ''{}'')
           both_fees_paymentData))) = [False]"
  using both_fees_run both_fees_props by (auto simp: payload_fee_fields)

text \<open>
  C1, amended. In a payload sent by \<open>requestToPay\<close>, each fee field is present exactly when
  its own fee is truthy in \<open>paymentData\<close> and neither the tip nor the other fee is: the two
  fees exclude each other there, and both fees together give neither field. In a payload
  sent through the endpoint, the fixed fee field is present exactly when the submitted
  fixed fee is truthy, the tip is not, and the fee parses to a non-zero number; the
  percentage field needs, in addition, that no fixed fee was submitted: the fixed fee takes
  precedence there. At both layers a truthy tip removes both fee fields.
\<close>

theorem fee_fields_by_layer:
  "(\<forall>p \<in> set (wire_payloads (snd (requestToPay stringify now upstream paymentData))).
      has_prop p ''ConvenienceFeeFixed'' =
        (truthy (get_prop paymentData ''convenienceFeeFixed'')
         \<and> \<not> truthy (get_prop paymentData ''tip'')
         \<and> \<not> truthy (get_prop paymentData ''convenienceFeePercentage''))
      \<and> has_prop p ''ConvenienceFeePercentage'' =
        (truthy (get_prop paymentData ''convenienceFeePercentage'')
         \<and> \<not> truthy (get_prop paymentData ''tip'')
         \<and> \<not> truthy (get_prop paymentData ''convenienceFeeFixed'')))
   \<and> (\<forall>p \<in> set (wire_payloads (snd (request_to_pay_route stringify CONFIG nowMs now upstream body))).
      has_prop p ''ConvenienceFeeFixed'' =
        (truthy (get_prop body ''convenienceFeeFixed'')
         \<and> \<not> truthy (get_prop body ''tip'')
         \<and> num_truthy (parseFloat (get_prop body ''convenienceFeeFixed'')))
      \<and> has_prop p ''ConvenienceFeePercentage'' =
        (truthy (get_prop body ''convenienceFeePercentage'')
         \<and> \<not> truthy (get_prop body ''tip'')
         \<and> \<not> truthy (get_prop body ''convenienceFeeFixed'')
         \<and> num_truthy (parseFloat (get_prop body ''convenienceFeePercentage''))))"
proof (intro conjI ballI)
  fix p
  assume "p \<in> set (wire_payloads (snd (requestToPay stringify now upstream paymentData)))"
  then obtain h where p: "p = requestPayload_of paymentData (generateTransactionDateTime now) h"
    using requestToPay_payloads by blast
  show "has_prop p ''ConvenienceFeeFixed'' =
        (truthy (get_prop paymentData ''convenienceFeeFixed'')
         \<and> \<not> truthy (get_prop paymentData ''tip'')
         \<and> \<not> truthy (get_prop paymentData ''convenienceFeePercentage''))"
    by (simp only: p payload_fee_fields)
  show "has_prop p ''ConvenienceFeePercentage'' =
        (truthy (get_prop paymentData ''convenienceFeePercentage'')
         \<and> \<not> truthy (get_prop paymentData ''tip'')
         \<and> \<not> truthy (get_prop paymentData ''convenienceFeeFixed''))"
    by (simp only: p payload_fee_fields)
next
  fix p
  assume "p \<in> set (wire_payloads (snd (request_to_pay_route stringify CONFIG nowMs now upstream body)))"
  then obtain pd amt where pd: "paymentData_of CONFIG nowMs body amt = Inr pd"
    and "p \<in> set (wire_payloads (snd (requestToPay stringify now upstream pd)))"
    using route_payloads by blast
  then obtain h where p: "p = requestPayload_of pd (generateTransactionDateTime now) h"
    using requestToPay_payloads by blast
  from paymentData_of_get [OF pd]
  have g: "get_prop pd ''tip'' = (if get_prop body ''tip'' = JStr ''true'' then JBool True else JUndefined)"
    "get_prop pd ''convenienceFeeFixed'' =
        (if truthy (get_prop body ''convenienceFeeFixed'') \<and> \<not> truthy (get_prop body ''tip'')
         then JNum (parseFloat (get_prop body ''convenienceFeeFixed'')) else JUndefined)"
    "get_prop pd ''convenienceFeePercentage'' =
        (if truthy (get_prop body ''convenienceFeePercentage'') \<and> \<not> truthy (get_prop body ''tip'')
            \<and> \<not> truthy (get_prop body ''convenienceFeeFixed'')
         then JNum (parseFloat (get_prop body ''convenienceFeePercentage'')) else JUndefined)"
    by blast+
  have tip: "truthy (get_prop body ''tip'')" if "get_prop body ''tip'' = JStr ''true''"
    using that by (simp add: truthy_def)
  show "has_prop p ''ConvenienceFeeFixed'' =
        (truthy (get_prop body ''convenienceFeeFixed'')
         \<and> \<not> truthy (get_prop body ''tip'')
         \<and> num_truthy (parseFloat (get_prop body ''convenienceFeeFixed'')))"
    using tip by (auto simp: p payload_fee_fields g truthy_def)
  show "has_prop p ''ConvenienceFeePercentage'' =
        (truthy (get_prop body ''convenienceFeePercentage'')
         \<and> \<not> truthy (get_prop body ''tip'')
         \<and> \<not> truthy (get_prop body ''convenienceFeeFixed'')
         \<and> num_truthy (parseFloat (get_prop body ''convenienceFeePercentage'')))"
    using tip by (auto simp: p payload_fee_fields g truthy_def)
qed

lemma example_config_ok: "well_formed_config example_config"
  by (simp add: well_formed_config_def example_config_def num_truthy_def)

lemma both_fees_body_run:
  "\<exists>p. wire_payloads (snd (request_to_pay_route (\<lambda>d. d) example_config 1700000000000 example_date
      (HttpResponse 200 ''{}'') both_fees_body)) = [p]"
proof -
  have a: "truthy (get_prop both_fees_body ''amount'')"
    by (simp add: both_fees_body_def example_body_def get_prop_def truthy_def)
  have b: "Finite 105 1 =
      Math_round (num_times (parseFloat (get_prop both_fees_body ''amount'')) (Finite 1 2))"
    by (simp add: both_fees_body_def example_body_def get_prop_def amount_example)
  have c: "\<not> num_le_zero (Finite 105 1)" "num_truthy (Finite 105 1)"
    by (simp_all add: num_le_zero_def num_truthy_def)
  have m: "get_prop both_fees_body ''mobileNumber'' = JStr ''01012345678''"
    "trim ''01012345678'' \<noteq> []"
    by (simp_all add: both_fees_body_def example_body_def get_prop_def trim_example)
  have opt: "\<forall>f \<in> set trimmed_fields. \<not> truthy (get_prop both_fees_body f)
      \<or> is_string (get_prop both_fees_body f)"
    by (simp add: trimmed_fields_def both_fees_body_def example_body_def get_prop_def truthy_def)
  have s: "(200 :: nat) < 500" by simp
  from route_run [OF a b c m opt example_config_ok s, of 1700000000000 "\<lambda>d. d" example_date "''{}''"]
  show ?thesis by (auto simp: wire_payloads_def)
qed

theorem fee_fields_by_layer_witness:
  "map (\<lambda>p. (has_prop p ''ConvenienceFeeFixed'', has_prop p ''ConvenienceFeePercentage''))
     (wire_payloads (snd (request_to_pay_route (\<lambda>d. d) example_config 1700000000000 example_date
        (HttpResponse 200 ''{}'') both_fees_body))) = [(True, False)]
   \<and> map (\<lambda>p. (has_prop p ''ConvenienceFeeFixed'', has_prop p ''ConvenienceFeePercentage''))
     (wire_payloads (snd (requestToPay (\<lambda>d. d) example_date (HttpResponse 200 ''{}'')
        both_fees_paymentData))) = [(False, False)]"
proof -
  obtain p where p: "wire_payloads (snd (request_to_pay_route (\<lambda>d. d) example_config 1700000000000
      example_date (HttpResponse 200 ''{}'') both_fees_body)) = [p]"
    using both_fees_body_run by blast
  obtain q where q: "wire_payloads (snd (requestToPay (\<lambda>d. d) example_date (HttpResponse 200 ''{}'')
      both_fees_paymentData)) = [q]"
    using both_fees_run by blast
  note inst = fee_fields_by_layer [of "\<lambda>d. d" example_date "HttpResponse 200 ''{}''"
      both_fees_paymentData example_config 1700000000000 both_fees_body]
  have body: "truthy (get_prop both_fees_body ''convenienceFeeFixed'')"
    "truthy (get_prop both_fees_body ''convenienceFeePercentage'')"
    "\<not> truthy (get_prop both_fees_body ''tip'')"
    "num_truthy (parseFloat (get_prop both_fees_body ''convenienceFeeFixed''))"
    by (simp_all add: both_fees_body_def example_body_def get_prop_def truthy_def
        parseFloat_examples num_truthy_def)
  from inst have "has_prop p ''ConvenienceFeeFixed''" "\<not> has_prop p ''ConvenienceFeePercentage''"
    using body by (simp_all add: p)
  moreover from inst have "\<not> has_prop q ''ConvenienceFeeFixed''"
    "\<not> has_prop q ''ConvenienceFeePercentage''"
    using both_fees_props by (simp_all add: q)
  ultimately show ?thesis by (simp add: p q)
qed

text \<open>
  C9. For the amount \<open>10.50\<close>, a mobile number that is not blank, optional text fields
  that are strings or absent, a configuration with its credentials and an integer currency
  code (positive, below \<open>10 ^ 21\<close>), and an upstream response below 500: one payload is
  sent, its \<open>AmountTrxn\<close> is 1050 and its \<open>Currency\<close> the configured code, and the reply is
  the success envelope with the amount \<open>10.50\<close> as submitted.
\<close>

theorem example_amount_on_the_wire:
  assumes "get_prop body ''amount'' = JStr ''10.50''"
      and "get_prop body ''mobileNumber'' = JStr mobile" and "trim mobile \<noteq> []"
      and "\<forall>f \<in> set trimmed_fields. \<not> truthy (get_prop body f) \<or> is_string (get_prop body f)"
      and "well_formed_config CONFIG"
      and "0 < currency" and "currency < 10 ^ 21" and "CURRENCY_EGP CONFIG = mk_num currency 0"
      and "status < 500"
  shows "\<exists>p reference.
      request_to_pay_route stringify CONFIG nowMs now (HttpResponse status d) body =
        (SuccessReply d (JStr ''10.50'') (JStr mobile) reference, [Post p])
    \<and> get_prop p ''AmountTrxn'' = JNum (mk_num 1050 0)
    \<and> get_prop p ''Currency'' = JNum (mk_num currency 0)"
proof -
  have n1050: "mk_num 1050 0 = Finite 105 1" by code_simp
  have a: "truthy (get_prop body ''amount'')"
    by (simp add: assms(1) truthy_def)
  have b: "Finite 105 1 = Math_round (num_times (parseFloat (get_prop body ''amount'')) (Finite 1 2))"
    by (simp add: assms(1) amount_example)
  have c: "\<not> num_le_zero (Finite 105 1)" "num_truthy (Finite 105 1)"
    by (simp_all add: num_le_zero_def num_truthy_def)
  from route_run [OF a b c assms(2,3,4,5,9), of nowMs stringify now d]
  obtain pd h where pd: "paymentData_of CONFIG nowMs body (Finite 105 1) = Inr pd"
    and run: "request_to_pay_route stringify CONFIG nowMs now (HttpResponse status d) body =
        (SuccessReply d (get_prop body ''amount'') (JStr mobile) (get_prop pd ''merchantReference''),
         [Post (requestPayload_of pd (generateTransactionDateTime now) h)])"
    by blast
  from paymentData_of_get [OF pd]
  have g: "get_prop pd ''amountTrxn'' = JNum (Finite 105 1)"
    "get_prop pd ''currency'' = JNum (CURRENCY_EGP CONFIG)"
    by blast+
  let ?p = "requestPayload_of pd (generateTransactionDateTime now) h"
  have "get_prop ?p ''AmountTrxn'' = JNum (mk_num 1050 0)"
    by (simp add: payload_amount_currency g parseInt_examples n1050)
  moreover have "get_prop ?p ''Currency'' = JNum (mk_num currency 0)"
    using parseInt_integer [OF assms(6,7)] by (simp add: payload_amount_currency g assms(8))
  ultimately show ?thesis
    using run by (simp add: assms(1))
qed

theorem example_amount_on_the_wire_witness:
  "get_prop example_body ''amount'' = JStr ''10.50''
   \<and> get_prop example_body ''mobileNumber'' = JStr ''01012345678''
   \<and> CURRENCY_EGP example_config = mk_num 818 0
   \<and> (case request_to_pay_route (\<lambda>d. d) example_config 1700000000000 example_date
         (HttpResponse 200 ''{}'') example_body of
        (SuccessReply d amount mobile reference, [Post p]) \<Rightarrow>
          d = ''{}'' \<and> amount = JStr ''10.50'' \<and> mobile = JStr ''01012345678''
          \<and> get_prop p ''AmountTrxn'' = JNum (mk_num 1050 0)
          \<and> get_prop p ''Currency'' = JNum (mk_num 818 0)
      | _ \<Rightarrow> False)"
proof -
  have 1: "get_prop example_body ''amount'' = JStr ''10.50''"
    and 2: "get_prop example_body ''mobileNumber'' = JStr ''01012345678''"
    by (simp_all add: example_body_def get_prop_def)
  have 3: "trim ''01012345678'' \<noteq> []" by (simp add: trim_example)
  have 4: "\<forall>f \<in> set trimmed_fields. \<not> truthy (get_prop example_body f)
      \<or> is_string (get_prop example_body f)"
    by (simp add: trimmed_fields_def example_body_def get_prop_def truthy_def)
  have "mk_num 818 0 = Finite 818 0" by code_simp
  then have 5: "CURRENCY_EGP example_config = mk_num 818 0" by (simp add: example_config_def)
  have 6: "(0 :: int) < 818" "(818 :: int) < 10 ^ 21" by simp_all
  have 7: "(200 :: nat) < 500" by simp
  from example_amount_on_the_wire [OF 1 2 3 4 example_config_ok 6 5 7,
      of "\<lambda>d. d" 1700000000000 example_date "''{}''"]
  show ?thesis using 1 2 5 by auto
qed

end
